theory Spec2Isabelle
  imports Complex_Main
begin

section \<open>Shared data\<close>

text \<open>
  Both components keep grid positions as objects \<^verbatim>\<open>{ x, y }\<close> of small integers.
  A cell is the pair of the two fields: \<open>fst\<close> is \<^verbatim>\<open>x\<close>, \<open>snd\<close> is \<^verbatim>\<open>y\<close>.
  Directions are cells too (unit deltas).

  \<^verbatim>\<open>Math.random()\<close> is the only source of nondeterminism. Its result is passed in as
  an argument: a real \<open>u\<close> with \<open>0 \<le> u < 1\<close> (floating-point rounding is not
  modelled), and \<^verbatim>\<open>Math.floor(u * n)\<close> is \<open>\<lfloor>u * n\<rfloor>\<close>.
\<close>

type_synonym cell = "int \<times> int"

datatype js_error = TypeError

definition unitInterval :: "real \<Rightarrow> bool" where
  "unitInterval u \<longleftrightarrow> 0 \<le> u \<and> u < 1"

section \<open>The canvas component (src/unnamed/part\_000)\<close>

text \<open>
  The component state: every \<^verbatim>\<open>useState\<close> cell and every \<^verbatim>\<open>useRef\<close> box that
  the game logic reads. The snake is stored tail first: the head is the last element
  (\<^verbatim>\<open>curSnake[curSnake.length - 1]\<close>). \<^verbatim>\<open>cellSize\<close>, \<^verbatim>\<open>canvasRef\<close> and
  \<^verbatim>\<open>lastMoveRef\<close> serve drawing and frame timing only and are left out.
  The speed is a JavaScript number with fractional steps; it is a real here.
\<close>

record game =
  gridSize :: int
  direction :: cell
  snake :: "cell list"
  food :: cell
  running :: bool
  speed :: real
  score :: int
  highScore :: int
  wrapWalls :: bool
  dirRef :: cell
  snakeRef :: "cell list"
  runningRef :: bool

text \<open>
  \<^verbatim>\<open>for (x = 0; x < grid; x++) for (y = 0; y < grid; y++)\<close>: the cells of the grid
  in the order of the two nested loops.
\<close>

definition gridCells :: "int \<Rightarrow> cell list" where
  "gridCells grid = concat (map (\<lambda>x. map (\<lambda>y. (x, y)) [0..grid - 1]) [0..grid - 1])"

text \<open>
  \<^verbatim>\<open>randomFoodPosition(snakeArr, grid)\<close>. The set \<^verbatim>\<open>taken\<close> holds the keys
  \<^verbatim>\<open>"x,y"\<close> of the snake cells; two integer cells have the same key exactly when
  they are equal, so membership in \<^verbatim>\<open>taken\<close> is membership in the snake.
\<close>

definition randomFoodPosition :: "real \<Rightarrow> cell list \<Rightarrow> int \<Rightarrow> cell" where
  "randomFoodPosition u snakeArr grid =
     (let free = filter (\<lambda>c. c \<notin> set snakeArr) (gridCells grid)
      in if length free = 0 then (0, 0)
         else free ! nat \<lfloor>u * real (length free)\<rfloor>)"

text \<open>
  The frame callback \<^verbatim>\<open>tick\<close> is created by an effect with the dependency list
  \<^verbatim>\<open>[speed]\<close>. It calls the \<^verbatim>\<open>moveSnake\<close> (and through it the \<^verbatim>\<open>endGame\<close>)
  of the render in which that effect last ran, and these functions read \<^verbatim>\<open>food\<close>,
  \<^verbatim>\<open>wrapWalls\<close> and \<^verbatim>\<open>score\<close> as constants of that render. The environment
  of the callback holds these constants, together with the speed of that render. Between
  two changes of the speed it stays as it is, whatever happens to the state.
  The refs and the state setters are shared by all renders.
\<close>

record tick_env =
  envFood :: cell
  envWrapWalls :: bool
  envScore :: int
  envSpeed :: real

text \<open>
  \<^verbatim>\<open>endGame()\<close>, as called by the tick: stops the game and raises the high score to
  the score of the callback's render at least. The write to local storage is an external
  effect and is not part of the state.
\<close>

definition endGame :: "tick_env \<Rightarrow> game \<Rightarrow> game" where
  "endGame c s = s\<lparr>running := False, highScore := max (highScore s) (envScore c)\<rparr>"

text \<open>
  The pieces of \<^verbatim>\<open>moveSnake\<close>, named so that theorems can speak about them:
  the two consecutive \<^verbatim>\<open>if\<close> statements that wrap one coordinate, the range test of
  the solid walls, and the new head after the wall policy.
\<close>

definition wrapCoord :: "int \<Rightarrow> int \<Rightarrow> int" where
  "wrapCoord grid v =
     (let v1 = (if v < 0 then grid - 1 else v)
      in if v1 \<ge> grid then 0 else v1)"

definition outOfRange :: "int \<Rightarrow> cell \<Rightarrow> bool" where
  "outOfRange grid c \<longleftrightarrow> fst c < 0 \<or> fst c \<ge> grid \<or> snd c < 0 \<or> snd c \<ge> grid"

definition rawHead :: "game \<Rightarrow> cell" where
  "rawHead s =
     (let head = last (snakeRef s); nd = dirRef s
      in (fst head + fst nd, snd head + snd nd))"

definition newHead :: "tick_env \<Rightarrow> game \<Rightarrow> cell" where
  "newHead c s =
     (if envWrapWalls c
      then (wrapCoord (gridSize s) (fst (rawHead s)), wrapCoord (gridSize s) (snd (rawHead s)))
      else rawHead s)"

text \<open>
  \<^verbatim>\<open>moveSnake()\<close>, one tick, as called by the frame callback with the environment
  \<open>c\<close>. It reads the snake and the direction from the refs, the wall mode and the food
  from the environment, and the grid size, which never changes, from the state.
  The setters of score and speed are given update functions, so they act on the current
  values. Reading \<^verbatim>\<open>head.x\<close> of an empty snake throws a TypeError.
  \<open>u\<close> is the random number drawn if food is placed.
\<close>

definition moveSnake :: "tick_env \<Rightarrow> real \<Rightarrow> game \<Rightarrow> js_error + game" where
  "moveSnake c u s =
     (let curSnake = snakeRef s in
      if curSnake = [] then Inl TypeError
      else if \<not> envWrapWalls c \<and> outOfRange (gridSize s) (rawHead s) then Inr (endGame c s)
      else if newHead c s \<in> set curSnake then Inr (endGame c s)
      else
        let curSnake' = curSnake @ [newHead c s] in
        if newHead c s = envFood c
        then Inr (s\<lparr>score := score s + 1,
                    food := randomFoodPosition u curSnake' (gridSize s),
                    speed := min 20 (speed s + 3 / 10),
                    snake := curSnake'\<rparr>)
        else Inr (s\<lparr>snake := tl curSnake'\<rparr>))"

text \<open>
  The key table of \<^verbatim>\<open>handleKey\<close>. \<^verbatim>\<open>e.key\<close> is a key name; the names of the
  table are case sensitive.
\<close>

definition keyMap :: "string \<Rightarrow> cell option" where
  "keyMap key =
     (if key = ''ArrowUp'' then Some (0, -1)
      else if key = ''ArrowDown'' then Some (0, 1)
      else if key = ''ArrowLeft'' then Some (-1, 0)
      else if key = ''ArrowRight'' then Some (1, 0)
      else if key = ''w'' then Some (0, -1)
      else if key = ''s'' then Some (0, 1)
      else if key = ''a'' then Some (-1, 0)
      else if key = ''d'' then Some (1, 0)
      else None)"

definition handleKey :: "string \<Rightarrow> game \<Rightarrow> game" where
  "handleKey key s =
     (if key = '' '' \<or> key = ''Spacebar'' then s\<lparr>running := \<not> running s\<rparr>
      else case keyMap key of
        None \<Rightarrow> s
      | Some nd \<Rightarrow>
          let cur = dirRef s in
          if fst cur + fst nd = 0 \<and> snd cur + snd nd = 0 then s
          else s\<lparr>direction := nd\<rparr>)"

text \<open>\<^verbatim>\<open>turn(dx, dy)\<close>, the on-screen arrow buttons.\<close>

definition turn :: "int \<Rightarrow> int \<Rightarrow> game \<Rightarrow> game" where
  "turn dx dy s =
     (let cur = dirRef s in
      if fst cur + dx = 0 \<and> snd cur + dy = 0 then s
      else s\<lparr>direction := (dx, dy)\<rparr>)"

text \<open>\<^verbatim>\<open>resetGame()\<close>; \<open>u\<close> is the random number drawn for the food.\<close>

definition startSnake :: "int \<Rightarrow> cell list" where
  "startSnake grid = [(grid div 2 - 1, grid div 2), (grid div 2, grid div 2)]"

definition resetGame :: "real \<Rightarrow> game \<Rightarrow> game" where
  "resetGame u s =
     (let start = startSnake (gridSize s) in
      s\<lparr>snake := start,
        dirRef := (1, 0),
        direction := (1, 0),
        food := randomFoodPosition u start (gridSize s),
        score := 0,
        speed := 8,
        running := False\<rparr>)"

text \<open>The remaining buttons: pause or start, wall mode, clear high score, speed slider.\<close>

definition togglePause :: "game \<Rightarrow> game" where
  "togglePause s = s\<lparr>running := \<not> running s\<rparr>"

definition toggleWallMode :: "game \<Rightarrow> game" where
  "toggleWallMode s = s\<lparr>wrapWalls := \<not> wrapWalls s\<rparr>"

definition clearHigh :: "game \<Rightarrow> game" where
  "clearHigh s = s\<lparr>score := 0, highScore := 0\<rparr>"

definition setSpeed :: "real \<Rightarrow> game \<Rightarrow> game" where
  "setSpeed v s = s\<lparr>speed := v\<rparr>"

text \<open>
  The three \<^verbatim>\<open>useEffect\<close> hooks that copy the state into the refs; they run after
  every render, that is after every event that changed the state.
\<close>

definition syncRefs :: "game \<Rightarrow> game" where
  "syncRefs s = s\<lparr>dirRef := direction s, snakeRef := snake s, runningRef := running s\<rparr>"

text \<open>
  The body of \<^verbatim>\<open>tick\<close> on a frame at which the move interval has elapsed:
  the snake moves only if \<^verbatim>\<open>runningRef.current\<close> holds.
\<close>

definition tick :: "tick_env \<Rightarrow> real \<Rightarrow> game \<Rightarrow> js_error + game" where
  "tick c u s = (if runningRef s then moveSnake c u s else Inr s)"

text \<open>
  The effect that creates the frame callback: it runs after the first render and after
  every render whose speed differs from the speed of the render before, which is the speed
  held by the environment. It then takes the constants of the new render.
\<close>

definition capture :: "game \<Rightarrow> tick_env" where
  "capture s =
     \<lparr>envFood = food s, envWrapWalls = wrapWalls s, envScore = score s, envSpeed = speed s\<rparr>"

definition tickEffect :: "game \<Rightarrow> tick_env \<Rightarrow> tick_env" where
  "tickEffect s c = (if speed s \<noteq> envSpeed c then capture s else c)"

text \<open>
  The component between two events: its state and the environment of its frame callback.
  A render runs the effects: the three that sync the refs and the one that may replace
  the callback.
\<close>

type_synonym world = "game \<times> tick_env"

definition render :: "world \<Rightarrow> world" where
  "render w = (syncRefs (fst w), tickEffect (fst w) (snd w))"

text \<open>
  The state of the first render. \<open>u\<close> is the random number of the first food,
  \<open>h\<close> the high score read from local storage. The frame callback is created in
  that render.
\<close>

definition initGame :: "real \<Rightarrow> int \<Rightarrow> game" where
  "initGame u h =
     \<lparr>gridSize = 20, direction = (1, 0), snake = startSnake 20,
      food = randomFoodPosition u (startSnake 20) 20,
      running = False, speed = 8, score = 0, highScore = h, wrapWalls = True,
      dirRef = (1, 0), snakeRef = startSnake 20, runningRef = False\<rparr>"

definition initWorld :: "real \<Rightarrow> int \<Rightarrow> world" where
  "initWorld u h = (initGame u h, capture (initGame u h))"

text \<open>
  Events of the canvas component, each followed by a render. A frame runs the callback of
  the current environment; all other handlers belong to the current render or use refs
  and update functions only. \<open>run\<close> performs a list of events and stops at the first
  error. The reachable worlds are those that some sequence of events produces from a first
  render. The random numbers of the events are not restricted here; restricting them to
  the unit interval leaves fewer reachable worlds.
\<close>

datatype event =
    KeyDown string
  | Frame real
  | ClickPause
  | ClickReset real
  | ClickWalls
  | ClickClearHigh
  | SlideSpeed real
  | ClickTurn int int

fun step :: "event \<Rightarrow> world \<Rightarrow> js_error + world" where
  "step (KeyDown k) (s, c) = Inr (render (handleKey k s, c))"
| "step (Frame u) (s, c) =
     (case tick c u s of Inl e \<Rightarrow> Inl e | Inr s' \<Rightarrow> Inr (render (s', c)))"
| "step ClickPause (s, c) = Inr (render (togglePause s, c))"
| "step (ClickReset u) (s, c) = Inr (render (resetGame u s, c))"
| "step ClickWalls (s, c) = Inr (render (toggleWallMode s, c))"
| "step ClickClearHigh (s, c) = Inr (render (clearHigh s, c))"
| "step (SlideSpeed v) (s, c) = Inr (render (setSpeed v s, c))"
| "step (ClickTurn dx dy) (s, c) = Inr (render (turn dx dy s, c))"

fun run :: "event list \<Rightarrow> world \<Rightarrow> js_error + world" where
  "run [] w = Inr w"
| "run (e # es) w = (case step e w of Inl x \<Rightarrow> Inl x | Inr w' \<Rightarrow> run es w')"

inductive reachable :: "world \<Rightarrow> bool" where
  init: "reachable (initWorld u h)"
| after: "reachable w \<Longrightarrow> step e w = Inr w' \<Longrightarrow> reachable w'"

text \<open>
  The phase of the specification, as far as the canvas component has one: the overlay
  reads \<^verbatim>\<open>PAUSED - Press Space to Start/Resume\<close> whenever \<^verbatim>\<open>running\<close> is false, and
  there is no other flag.
\<close>

datatype phase = Paused | Running | Over

definition phaseOf :: "game \<Rightarrow> phase" where
  "phaseOf s = (if running s then Running else Paused)"

section \<open>The DOM component (src/snake-game-claude/src/App.jsx)\<close>

text \<open>
  The state fields of this component, and its functions whose names clash with the canvas
  component, carry the suffix \<open>A\<close>. Here the snake is stored head first
  (\<^verbatim>\<open>prevSnake[0]\<close> is the head).
\<close>

definition GRID_SIZE :: int where
  "GRID_SIZE = 20"

definition INITIAL_SNAKE :: "cell list" where
  "INITIAL_SNAKE = [(10, 10)]"

definition INITIAL_DIRECTION :: cell where
  "INITIAL_DIRECTION = (1, 0)"

datatype game_mode = Walls | PassThrough

record app =
  snakeA :: "cell list"
  foodA :: cell
  directionA :: cell
  gameOverA :: bool
  scoreA :: int
  isPlayingA :: bool
  gameModeA :: game_mode
  directionRefA :: cell

text \<open>
  \<^verbatim>\<open>generateFood(currentSnake)\<close>: a rejection loop with no bound on its iterations.
  \<open>rnd\<close> is the sequence of results of \<^verbatim>\<open>Math.random()\<close>; iteration \<open>i\<close> of the
  loop draws \<open>rnd (2 * i)\<close> for \<^verbatim>\<open>x\<close> and \<open>rnd (2 * i + 1)\<close> for \<^verbatim>\<open>y\<close>.
  The result \<open>None\<close> says that the loop never exits.
\<close>

definition candidate :: "(nat \<Rightarrow> real) \<Rightarrow> nat \<Rightarrow> cell" where
  "candidate rnd i = (\<lfloor>rnd (2 * i) * real_of_int GRID_SIZE\<rfloor>, \<lfloor>rnd (2 * i + 1) * real_of_int GRID_SIZE\<rfloor>)"

partial_function (option) generateFoodFrom :: "(nat \<Rightarrow> real) \<Rightarrow> cell list \<Rightarrow> nat \<Rightarrow> cell option" where
  "generateFoodFrom rnd currentSnake i =
     (if candidate rnd i \<in> set currentSnake
      then generateFoodFrom rnd currentSnake (Suc i)
      else Some (candidate rnd i))"

definition generateFood :: "(nat \<Rightarrow> real) \<Rightarrow> cell list \<Rightarrow> cell option" where
  "generateFood rnd currentSnake = generateFoodFrom rnd currentSnake 0"

definition resetGameA :: "app \<Rightarrow> app" where
  "resetGameA s =
     s\<lparr>snakeA := INITIAL_SNAKE,
       foodA := (15, 15),
       directionA := INITIAL_DIRECTION,
       directionRefA := INITIAL_DIRECTION,
       gameOverA := False,
       scoreA := 0,
       isPlayingA := True\<rparr>"

text \<open>\<^verbatim>\<open>e.key.toLowerCase()\<close> on key names, which are ASCII.\<close>

definition toLowerCase :: "string \<Rightarrow> string" where
  "toLowerCase k =
     map (\<lambda>c. if 65 \<le> (of_char c :: nat) \<and> (of_char c :: nat) \<le> 90
               then char_of (of_char c + (32 :: nat)) else c) k"

definition handleKeyPress :: "string \<Rightarrow> app \<Rightarrow> app" where
  "handleKeyPress k s =
     (if \<not> isPlayingA s \<or> gameOverA s then s
      else
        let key = toLowerCase k; currentDir = directionRefA s in
        if (key = ''arrowup'' \<or> key = ''w'') \<and> snd currentDir = 0
          then s\<lparr>directionRefA := (0, -1)\<rparr>
        else if (key = ''arrowdown'' \<or> key = ''s'') \<and> snd currentDir = 0
          then s\<lparr>directionRefA := (0, 1)\<rparr>
        else if (key = ''arrowleft'' \<or> key = ''a'') \<and> fst currentDir = 0
          then s\<lparr>directionRefA := (-1, 0)\<rparr>
        else if (key = ''arrowright'' \<or> key = ''d'') \<and> fst currentDir = 0
          then s\<lparr>directionRefA := (1, 0)\<rparr>
        else s)"

text \<open>
  The interval callback \<^verbatim>\<open>gameLoop\<close>: the \<^verbatim>\<open>setSnake\<close> updater with the state
  changes it requests, followed by \<^verbatim>\<open>setDirection(directionRef.current)\<close>, which runs
  on every path. \<open>endGameA\<close> is what the two collision paths do:
  \<^verbatim>\<open>setGameOver(true); setIsPlaying(false); return prevSnake\<close>.
\<close>

definition rawHeadA :: "app \<Rightarrow> cell" where
  "rawHeadA s =
     (let head = hd (snakeA s)
      in (fst head + fst (directionRefA s), snd head + snd (directionRefA s)))"

definition outOfRangeA :: "cell \<Rightarrow> bool" where
  "outOfRangeA c \<longleftrightarrow> fst c < 0 \<or> fst c \<ge> GRID_SIZE \<or> snd c < 0 \<or> snd c \<ge> GRID_SIZE"

definition wrapCoordA :: "int \<Rightarrow> int" where
  "wrapCoordA v =
     (let v1 = (if v < 0 then GRID_SIZE - 1 else v)
      in if v1 \<ge> GRID_SIZE then 0 else v1)"

definition newHeadA :: "app \<Rightarrow> cell" where
  "newHeadA s =
     (if gameModeA s = Walls then rawHeadA s
      else (wrapCoordA (fst (rawHeadA s)), wrapCoordA (snd (rawHeadA s))))"

definition endGameA :: "app \<Rightarrow> app" where
  "endGameA s = s\<lparr>gameOverA := True, isPlayingA := False, directionA := directionRefA s\<rparr>"

definition gameLoop :: "(nat \<Rightarrow> real) \<Rightarrow> app \<Rightarrow> (js_error + app) option" where
  "gameLoop rnd s =
     (let prevSnake = snakeA s in
      if prevSnake = [] then Some (Inl TypeError)
      else if gameModeA s = Walls \<and> outOfRangeA (rawHeadA s) then Some (Inr (endGameA s))
      else if newHeadA s \<in> set prevSnake then Some (Inr (endGameA s))
      else
        let newSnake = newHeadA s # prevSnake in
        if newHeadA s = foodA s
        then (case generateFood rnd newSnake of
                None \<Rightarrow> None
              | Some f \<Rightarrow>
                  Some (Inr (s\<lparr>scoreA := scoreA s + 10, foodA := f, snakeA := newSnake,
                               directionA := directionRefA s\<rparr>)))
        else Some (Inr (s\<lparr>snakeA := butlast newSnake, directionA := directionRefA s\<rparr>)))"

text \<open>
  The interval exists only while \<^verbatim>\<open>isPlaying && !gameOver\<close>: the effect that
  installs it returns early otherwise.
\<close>

definition tickA :: "(nat \<Rightarrow> real) \<Rightarrow> app \<Rightarrow> (js_error + app) option" where
  "tickA rnd s = (if \<not> isPlayingA s \<or> gameOverA s then Some (Inr s) else gameLoop rnd s)"

text \<open>The two mode buttons are disabled while \<^verbatim>\<open>isPlaying\<close>.\<close>

definition setGameMode :: "game_mode \<Rightarrow> app \<Rightarrow> app" where
  "setGameMode m s = (if isPlayingA s then s else s\<lparr>gameModeA := m\<rparr>)"

definition initApp :: app where
  "initApp =
     \<lparr>snakeA = INITIAL_SNAKE, foodA = (15, 15), directionA = INITIAL_DIRECTION,
      gameOverA = False, scoreA = 0, isPlayingA = False, gameModeA = Walls,
      directionRefA = INITIAL_DIRECTION\<rparr>"

text \<open>
  The phase of the specification in the DOM component, read off the two flags. The buttons
  \<^verbatim>\<open>Start Game\<close> and \<^verbatim>\<open>Play Again\<close> (both \<^verbatim>\<open>resetGame\<close>) are rendered only
  when the game is not running.
\<close>

definition phaseA :: "app \<Rightarrow> phase" where
  "phaseA s = (if gameOverA s then Over else if isPlayingA s then Running else Paused)"

inductive reachableA :: "app \<Rightarrow> bool" where
  initA: "reachableA initApp"
| keyA: "reachableA s \<Longrightarrow> reachableA (handleKeyPress k s)"
| tickA: "reachableA s \<Longrightarrow> tickA rnd s = Some (Inr s') \<Longrightarrow> reachableA s'"
| resetA: "reachableA s \<Longrightarrow> phaseA s \<noteq> Running \<Longrightarrow> reachableA (resetGameA s)"
| modeA: "reachableA s \<Longrightarrow> reachableA (setGameMode m s)"

section \<open>Auxiliary notions and sample states\<close>

text \<open>The four unit deltas that the key tables can produce.\<close>

definition unitDir :: "cell \<Rightarrow> bool" where
  "unitDir d \<longleftrightarrow> d = (0, -1) \<or> d = (0, 1) \<or> d = (-1, 0) \<or> d = (1, 0)"

text \<open>
  The direction that a lower-cased key name asks for in \<^verbatim>\<open>handleKeyPress\<close>
  (the key tests of its four branches, without the axis guards).
\<close>

definition keyDirA :: "string \<Rightarrow> cell option" where
  "keyDirA key =
     (if key = ''arrowup'' \<or> key = ''w'' then Some (0, -1)
      else if key = ''arrowdown'' \<or> key = ''s'' then Some (0, 1)
      else if key = ''arrowleft'' \<or> key = ''a'' then Some (-1, 0)
      else if key = ''arrowright'' \<or> key = ''d'' then Some (1, 0)
      else None)"

text \<open>
  A two-cell snake whose head is at the right edge of the 20 by 20 grid and moves right,
  with solid walls and with wrapping walls, for each component; in \<open>wrapEatA\<close> the food
  lies on the cell beyond the edge.
\<close>

definition solidEdge :: game where
  "solidEdge =
     \<lparr>gridSize = 20, direction = (1, 0), snake = [(18, 10), (19, 10)], food = (15, 10),
      running = True, speed = 8, score = 0, highScore = 0, wrapWalls = False,
      dirRef = (1, 0), snakeRef = [(18, 10), (19, 10)], runningRef = True\<rparr>"

definition solidEdgeA :: app where
  "solidEdgeA =
     \<lparr>snakeA = [(19, 10), (18, 10)], foodA = (15, 15), directionA = (1, 0),
      gameOverA = False, scoreA = 10, isPlayingA = True, gameModeA = Walls,
      directionRefA = (1, 0)\<rparr>"


definition wrapEdgeA :: app where
  "wrapEdgeA = solidEdgeA\<lparr>gameModeA := PassThrough\<rparr>"





text \<open>
  A four-cell snake curled into a square: the cell in front of the head \<open>(6, 5)\<close> is
  the tail cell \<open>(5, 5)\<close>.
\<close>

definition tailChase :: game where
  "tailChase =
     \<lparr>gridSize = 20, direction = (-1, 0), snake = [(5, 5), (5, 6), (6, 6), (6, 5)],
      food = (15, 10), running = True, speed = 43 / 5, score = 2, highScore = 2,
      wrapWalls = True, dirRef = (-1, 0), snakeRef = [(5, 5), (5, 6), (6, 6), (6, 5)],
      runningRef = True\<rparr>"

definition tailChaseA :: app where
  "tailChaseA =
     \<lparr>snakeA = [(6, 5), (6, 6), (5, 6), (5, 5)], foodA = (15, 15), directionA = (-1, 0),
      gameOverA = False, scoreA = 30, isPlayingA = True, gameModeA = Walls,
      directionRefA = (-1, 0)\<rparr>"

text \<open>
  The canvas game right after the start, running to the right, and a DOM game with a
  three-cell snake running to the right.
\<close>

definition cruising :: game where
  "cruising =
     \<lparr>gridSize = 20, direction = (1, 0), snake = [(9, 10), (10, 10)], food = (15, 10),
      running = True, speed = 8, score = 0, highScore = 0, wrapWalls = True,
      dirRef = (1, 0), snakeRef = [(9, 10), (10, 10)], runningRef = True\<rparr>"

definition cruisingA :: app where
  "cruisingA =
     \<lparr>snakeA = [(10, 10), (9, 10), (8, 10)], foodA = (15, 15), directionA = (1, 0),
      gameOverA = False, scoreA = 20, isPlayingA = True, gameModeA = Walls,
      directionRefA = (1, 0)\<rparr>"

text \<open>Two key presses between two ticks: up, then left.\<close>

definition upLeft :: game where
  "upLeft = syncRefs (handleKey ''ArrowLeft'' (syncRefs (handleKey ''ArrowUp'' cruising)))"

definition upLeftA :: app where
  "upLeftA = handleKeyPress ''ArrowLeft'' (handleKeyPress ''ArrowUp'' cruisingA)"

text \<open>
  The canvas game after the snake of \<open>solidEdge\<close> has hit the wall, and the same game
  after the up key and then the space key have been pressed.
\<close>

definition afterWallHit :: game where
  "afterWallHit = syncRefs (endGame (capture solidEdge) solidEdge)"

definition resumed :: game where
  "resumed = syncRefs (handleKey '' '' (syncRefs (handleKey ''ArrowUp'' afterWallHit)))"




text \<open>
  The world after the first render with the draw 1/2 (food at \<open>(10, 0)\<close>), a reset with
  the draw 0 (food at \<open>(0, 0)\<close>, speed still 8), the space key, the up key and nine
  frames: the frame callback still holds the food of the first render.
\<close>

definition upTheColumn :: "event list" where
  "upTheColumn =
     [ClickReset 0, KeyDown '' '', KeyDown ''ArrowUp'', Frame 0, Frame 0, Frame 0, Frame 0,
      Frame 0, Frame 0, Frame 0, Frame 0, Frame 0]"

definition staleFood :: world where
  "staleFood =
     (\<lparr>gridSize = 20, direction = (0, - 1), snake = [(10, 2), (10, 1)], food = (0, 0),
       running = True, speed = 8, score = 0, highScore = 0, wrapWalls = True,
       dirRef = (0, - 1), snakeRef = [(10, 2), (10, 1)], runningRef = True\<rparr>,
      \<lparr>envFood = (10, 0), envWrapWalls = True, envScore = 0, envSpeed = 8\<rparr>)"

definition columnSnake :: "cell list" where
  "columnSnake = [(10, 2), (10, 1), (10, 0)]"

text \<open>
  The invariant of the snake: it is not empty and no cell occurs twice. In the canvas
  component the ref holds the snake of the last render.
\<close>

definition snakeInv :: "game \<Rightarrow> bool" where
  "snakeInv s \<longleftrightarrow> snakeRef s = snake s \<and> snake s \<noteq> [] \<and> distinct (snake s)"

definition snakeInvA :: "app \<Rightarrow> bool" where
  "snakeInvA t \<longleftrightarrow> snakeA t \<noteq> [] \<and> distinct (snakeA t)"

text \<open>Every draw of a random sequence lies in the unit interval.\<close>

definition validDraws :: "(nat \<Rightarrow> real) \<Rightarrow> bool" where
  "validDraws rnd \<longleftrightarrow> (\<forall>i. unitInterval (rnd i))"

text \<open>
  A snake that winds through the 20 by 20 grid column by column, up the even columns and
  down the odd ones: \<open>serpentine k\<close> is its cell number \<open>k\<close>, counted from the tail
  \<open>(0, 0)\<close>. With 399 cells it leaves only the cell \<open>(19, 0)\<close> free, which holds the food
  and lies in front of the head \<open>(19, 1)\<close>.
\<close>

definition serpentine :: "nat \<Rightarrow> cell" where
  "serpentine k =
     (int (k div 20), if even (k div 20) then int (k mod 20) else 19 - int (k mod 20))"

definition serpentinePath :: "nat \<Rightarrow> cell list" where
  "serpentinePath n = map serpentine [0..<n]"

definition nearlyFull :: game where
  "nearlyFull =
     \<lparr>gridSize = 20, direction = (0, - 1), snake = serpentinePath 399, food = (19, 0),
      running = True, speed = 20, score = 397, highScore = 397, wrapWalls = True,
      dirRef = (0, - 1), snakeRef = serpentinePath 399, runningRef = True\<rparr>"

definition nearlyFullA :: app where
  "nearlyFullA =
     \<lparr>snakeA = rev (serpentinePath 399), foodA = (19, 0), directionA = (0, - 1),
      gameOverA = False, scoreA = 3980, isPlayingA = True, gameModeA = Walls,
      directionRefA = (0, - 1)\<rparr>"

text \<open>Games whose next tick eats the food, and a random sequence whose first draw is
  rejected.\<close>

definition grownSnake :: "cell list" where
  "grownSnake = [(9, 10), (10, 10), (11, 10)]"

definition aboutToEat :: game where
  "aboutToEat = cruising\<lparr>food := (11, 10)\<rparr>"

definition aboutToEatA :: app where
  "aboutToEatA = cruisingA\<lparr>foodA := (11, 10)\<rparr>"

definition zeroDraws :: "nat \<Rightarrow> real" where
  "zeroDraws i = 0"

definition halfThenZero :: "nat \<Rightarrow> real" where
  "halfThenZero i = (if i < 2 then 1 / 2 else 0)"

section \<open>General facts\<close>

lemma set_gridCells: "set (gridCells g) = {0..g - 1} \<times> {0..g - 1}"
  by (auto simp: gridCells_def)

lemma floor_index_bound:
  assumes "unitInterval u" and "0 < n"
  shows "nat \<lfloor>u * real n\<rfloor> < n"
proof -
  have "u * real n < real n" using assms by (simp add: unitInterval_def)
  then have "\<lfloor>u * real n\<rfloor> < int n" by linarith
  moreover have "0 \<le> \<lfloor>u * real n\<rfloor>" using assms by (simp add: unitInterval_def)
  ultimately show ?thesis by linarith
qed



lemma endGame_frame:
  "\<not> running (endGame c s) \<and> phaseOf (endGame c s) = Paused \<and> snake (endGame c s) = snake s
   \<and> snakeRef (endGame c s) = snakeRef s \<and> score (endGame c s) = score s
   \<and> food (endGame c s) = food s"
  by (simp add: endGame_def phaseOf_def)

lemma endGameA_frame:
  "phaseA (endGameA t) = Over \<and> snakeA (endGameA t) = snakeA t
   \<and> scoreA (endGameA t) = scoreA t \<and> foodA (endGameA t) = foodA t"
  by (simp add: endGameA_def phaseA_def)


lemma moveSnake_collide:
  "snakeRef s \<noteq> [] \<Longrightarrow> newHead c s \<in> set (snakeRef s) \<Longrightarrow> moveSnake c u s = Inr (endGame c s)"
  by (simp add: moveSnake_def Let_def)


lemma gameLoop_collide:
  "snakeA t \<noteq> [] \<Longrightarrow> newHeadA t \<in> set (snakeA t) \<Longrightarrow> gameLoop rnd t = Some (Inr (endGameA t))"
  by (simp add: gameLoop_def Let_def)



lemma generateFood_first_draw:
  "candidate rnd 0 \<notin> set sn \<Longrightarrow> generateFood rnd sn = Some (candidate rnd 0)"
  by (simp add: generateFood_def generateFoodFrom.simps)


lemma free_start_length: "length (filter (\<lambda>c. c \<notin> set (startSnake 20)) (gridCells 20)) = 398"
  by code_simp

lemma free_start_0: "filter (\<lambda>c. c \<notin> set (startSnake 20)) (gridCells 20) ! 0 = (0, 0)"
  by code_simp

lemma free_start_199: "filter (\<lambda>c. c \<notin> set (startSnake 20)) (gridCells 20) ! 199 = (10, 0)"
  by code_simp

lemma food_start_0: "randomFoodPosition 0 (startSnake 20) 20 = (0, 0)"
  by (simp add: randomFoodPosition_def Let_def free_start_length free_start_0
      del: length_0_conv)

lemma food_start_half: "randomFoodPosition (1 / 2) (startSnake 20) 20 = (10, 0)"
  by (simp add: randomFoodPosition_def Let_def free_start_length free_start_199
      del: length_0_conv)

subsection \<open>Food placement\<close>

lemma randomFoodPosition_full:
  assumes "set (gridCells g) \<subseteq> set sn"
  shows "randomFoodPosition u sn g = (0, 0)"
proof -
  have "filter (\<lambda>c. c \<notin> set sn) (gridCells g) = []"
    using assms by (auto simp: filter_empty_conv)
  then show ?thesis by (simp add: randomFoodPosition_def)
qed

lemma randomFoodPosition_free:
  assumes "unitInterval u" and "\<exists>c\<in>set (gridCells g). c \<notin> set sn"
  shows "randomFoodPosition u sn g \<in> set (gridCells g) \<and> randomFoodPosition u sn g \<notin> set sn"
proof -
  define free where "free = filter (\<lambda>c. c \<notin> set sn) (gridCells g)"
  have ne: "0 < length free"
    using assms(2) by (auto simp: free_def filter_empty_conv)
  then have "nat \<lfloor>u * real (length free)\<rfloor> < length free"
    using assms(1) by (rule floor_index_bound[rotated])
  then have "free ! nat \<lfloor>u * real (length free)\<rfloor> \<in> set free"
    by (rule nth_mem)
  moreover have "randomFoodPosition u sn g = free ! nat \<lfloor>u * real (length free)\<rfloor>"
    using ne by (simp add: randomFoodPosition_def free_def Let_def)
  ultimately show ?thesis by (simp add: free_def)
qed

lemma moveSnake_keeps_food:
  assumes "newHead c s \<noteq> envFood c" and "moveSnake c u s = Inr s'"
  shows "food s' = food s"
  using assms by (auto simp: moveSnake_def Let_def endGame_def split: if_splits)

lemma moveSnake_eats:
  assumes "snakeRef s \<noteq> []" and "newHead c s = envFood c"
    and "envFood c \<notin> set (snakeRef s)" and "\<not> outOfRange (gridSize s) (envFood c)"
  shows "moveSnake c u s =
     Inr (s\<lparr>score := score s + 1,
            food := randomFoodPosition u (snakeRef s @ [envFood c]) (gridSize s),
            speed := min 20 (speed s + 3 / 10),
            snake := snakeRef s @ [envFood c]\<rparr>)"
proof -
  have "\<not> (\<not> envWrapWalls c \<and> outOfRange (gridSize s) (rawHead s))"
    using assms(2,4) by (auto simp: newHead_def)
  then show ?thesis using assms(1-3) by (auto simp: moveSnake_def Let_def)
qed

lemma generateFoodFrom_free: "generateFoodFrom rnd sn i = Some f \<Longrightarrow> f \<notin> set sn"
proof (induction rnd sn i f rule: generateFoodFrom.raw_induct[rotated 1, consumes 1])
  case (1 g rnd sn i f)
  then show ?case by (auto split: if_splits)
qed

lemma generateFoodFrom_some_draw:
  "generateFoodFrom rnd sn i = Some f \<Longrightarrow> \<exists>j. candidate rnd j \<notin> set sn"
proof (induction rnd sn i f rule: generateFoodFrom.raw_induct[rotated 1, consumes 1])
  case (1 g rnd sn i f)
  then show ?case by (auto split: if_splits)
qed

lemma generateFoodFrom_none:
  assumes "\<forall>j. candidate rnd j \<in> set sn"
  shows "generateFoodFrom rnd sn i = None"
  using assms generateFoodFrom_some_draw[of rnd sn i] by (cases "generateFoodFrom rnd sn i") auto

lemma generateFoodFrom_is_candidate:
  "generateFoodFrom rnd sn i = Some f \<Longrightarrow> \<exists>j. f = candidate rnd j"
proof (induction rnd sn i f rule: generateFoodFrom.raw_induct[rotated 1, consumes 1])
  case (1 g rnd sn i f)
  then show ?case by (auto split: if_splits)
qed

text \<open>The loop returns as soon as a draw is free: induction on the number of draws left.\<close>

lemma generateFoodFrom_returns:
  "candidate rnd (i + k) \<notin> set sn \<Longrightarrow> \<exists>f. generateFoodFrom rnd sn i = Some f"
proof (induction k arbitrary: i)
  case 0
  then show ?case by (subst generateFoodFrom.simps) simp
next
  case (Suc k)
  show ?case
  proof (cases "candidate rnd i \<in> set sn")
    case True
    have "candidate rnd (Suc i + k) \<notin> set sn" using Suc.prems by simp
    then obtain f where "generateFoodFrom rnd sn (Suc i) = Some f"
      using Suc.IH by blast
    then show ?thesis using True by (subst generateFoodFrom.simps) simp
  next
    case False
    then show ?thesis by (subst generateFoodFrom.simps) simp
  qed
qed

lemma gameLoop_keeps_food:
  assumes "newHeadA t \<noteq> foodA t" and "gameLoop rnd t = Some (Inr t')"
  shows "foodA t' = foodA t"
  using assms by (auto simp: gameLoop_def Let_def endGameA_def split: if_splits)

lemma gameLoop_returns_without_food:
  assumes "newHeadA t \<noteq> foodA t"
  shows "\<exists>r. gameLoop rnd t = Some r"
  using assms by (simp add: gameLoop_def Let_def)

subsection \<open>The winding snake\<close>

lemma serpentine_inj: "serpentine a = serpentine b \<Longrightarrow> a = b"
proof -
  assume e: "serpentine a = serpentine b"
  then have d: "a div 20 = b div 20" by (simp add: serpentine_def)
  then have "a mod 20 = b mod 20" using e by (auto simp: serpentine_def split: if_splits)
  then show "a = b" using d by (metis div_mult_mod_eq)
qed

lemma serpentine_398: "serpentine 398 = (19, 1)"
  by (simp add: serpentine_def)

lemma serpentine_399: "serpentine 399 = (19, 0)"
  by (simp add: serpentine_def)

lemma serpentinePath_400: "serpentinePath 400 = serpentinePath 399 @ [(19, 0)]"
proof -
  have "[0..<400] = [0..<399] @ [399]"
    using upt_Suc_append[of 0 399] by simp
  then show ?thesis by (simp add: serpentinePath_def serpentine_399)
qed

lemma serpentinePath_nonempty: "serpentinePath 399 \<noteq> []"
  by (simp add: serpentinePath_def)

lemma last_serpentinePath: "last (serpentinePath 399) = (19, 1)"
proof -
  have "[0..<399] = [0..<398] @ [398]"
    using upt_Suc_append[of 0 398] by simp
  then show ?thesis by (simp add: serpentinePath_def serpentine_398)
qed

lemma distinct_serpentinePath: "distinct (serpentinePath n)"
  by (auto simp: serpentinePath_def distinct_map inj_on_def dest: serpentine_inj)

lemma free_cell_not_in_path: "(19, 0) \<notin> set (serpentinePath 399)"
proof
  assume "(19, 0) \<in> set (serpentinePath 399)"
  then obtain k where "k < 399" and "serpentine k = (19, 0)"
    by (auto simp: serpentinePath_def)
  then have "k = 399" using serpentine_inj[of k 399] by (simp add: serpentine_399)
  then show False using \<open>k < 399\<close> by simp
qed

lemma serpentine_covers:
  assumes "0 \<le> x" and "x < 20" and "0 \<le> y" and "y < 20"
  shows "(x, y) \<in> set (serpentinePath 400)"
proof -
  define r where "r = (if even x then nat y else 19 - nat y)"
  define k where "k = 20 * nat x + r"
  have ny: "nat y < 20" using assms by linarith
  have r: "r < 20"
  proof (cases "even x")
    case True
    then show ?thesis using ny by (simp add: r_def)
  next
    case False
    have "19 - nat y < 20" by arith
    then show ?thesis using False by (simp add: r_def)
  qed
  have kd: "k div 20 = nat x" and km: "k mod 20 = r" using r by (simp_all add: k_def)
  have nx: "nat x < 20" using assms by linarith
  have "k < 400" using nx r by (simp add: k_def)
  moreover have "serpentine k = (x, y)"
    using assms ny by (auto simp: serpentine_def kd km r_def even_nat_iff)
  ultimately show ?thesis by (force simp: serpentinePath_def)
qed

lemma grid_in_serpentinePath: "set (gridCells 20) \<subseteq> set (serpentinePath 400)"
  using serpentine_covers by (auto simp: set_gridCells)

lemma candidate_in_grid:
  assumes "\<forall>i. unitInterval (rnd i)"
  shows "candidate rnd j \<in> set (gridCells 20)"
proof -
  have b: "0 \<le> \<lfloor>u * 20\<rfloor> \<and> \<lfloor>u * 20\<rfloor> \<le> 19" if "unitInterval u" for u :: real
  proof -
    have "0 \<le> u * 20" and "u * 20 < 20" using that by (simp_all add: unitInterval_def)
    then show ?thesis by linarith
  qed
  show ?thesis
    using b[of "rnd (2 * j)"] b[of "rnd (2 * j + 1)"] assms
    by (simp add: candidate_def GRID_SIZE_def set_gridCells)
qed

subsection \<open>The food loop of the DOM component\<close>

lemma generateFood_total:
  assumes "\<exists>j. candidate rnd j \<notin> set sn"
  shows "\<exists>f. generateFood rnd sn = Some f \<and> f \<notin> set sn
             \<and> (validDraws rnd \<longrightarrow> f \<in> set (gridCells GRID_SIZE))"
proof -
  from assms obtain j where "candidate rnd (0 + j) \<notin> set sn" by auto
  then obtain f where f: "generateFoodFrom rnd sn 0 = Some f"
    using generateFoodFrom_returns by blast
  have free: "f \<notin> set sn" using f by (rule generateFoodFrom_free)
  obtain k where k: "f = candidate rnd k"
    using f generateFoodFrom_is_candidate by blast
  have "f \<in> set (gridCells GRID_SIZE)" if "validDraws rnd"
    using that k candidate_in_grid[of rnd k] by (simp add: validDraws_def GRID_SIZE_def)
  then show ?thesis using f free by (simp add: generateFood_def)
qed

lemma gameLoop_eats:
  assumes "snakeA t \<noteq> []" and "newHeadA t = foodA t" and "foodA t \<notin> set (snakeA t)"
    and "\<not> outOfRangeA (foodA t)" and "\<exists>j. candidate rnd j \<notin> set (foodA t # snakeA t)"
  shows "\<exists>f. gameLoop rnd t =
             Some (Inr (t\<lparr>scoreA := scoreA t + 10, foodA := f,
                          snakeA := foodA t # snakeA t, directionA := directionRefA t\<rparr>))
           \<and> f \<notin> set (foodA t # snakeA t)
           \<and> (validDraws rnd \<longrightarrow> f \<in> set (gridCells GRID_SIZE))"
proof -
  have nowall: "\<not> (gameModeA t = Walls \<and> outOfRangeA (rawHeadA t))"
    using assms(2,4) by (auto simp: newHeadA_def)
  obtain f where f: "generateFood rnd (foodA t # snakeA t) = Some f"
    and free: "f \<notin> set (foodA t # snakeA t)"
    and grid: "validDraws rnd \<longrightarrow> f \<in> set (gridCells GRID_SIZE)"
    using generateFood_total[OF assms(5)] by blast
  have "gameLoop rnd t =
      Some (Inr (t\<lparr>scoreA := scoreA t + 10, foodA := f,
                   snakeA := foodA t # snakeA t, directionA := directionRefA t\<rparr>))"
    using assms(1-3) nowall f by (auto simp: gameLoop_def Let_def)
  then show ?thesis using free grid by blast
qed

subsection \<open>Event sequences of the canvas component\<close>

lemma reachable_run: "reachable w \<Longrightarrow> run es w = Inr w' \<Longrightarrow> reachable w'"
proof (induction es arbitrary: w)
  case Nil
  then show ?case by simp
next
  case (Cons e es)
  then obtain w1 where "step e w = Inr w1" and "run es w1 = Inr w'"
    by (cases "step e w") auto
  then show ?case using Cons.IH Cons.prems(1) reachable.after by blast
qed

text \<open>
  After every event the environment holds the speed of the state: the frame callback is
  replaced exactly when the speed has changed.
\<close>

lemma render_envSpeed: "envSpeed (snd (render w)) = speed (fst (render w))"
  by (simp add: render_def tickEffect_def capture_def syncRefs_def)

lemma step_envSpeed:
  assumes "step e w = Inr w'"
  shows "envSpeed (snd w') = speed (fst w')"
proof -
  obtain s c where w: "w = (s, c)" by (cases w)
  then obtain x where "w' = render x"
    using assms by (cases e) (auto split: sum.splits)
  then show ?thesis by (simp add: render_envSpeed)
qed

lemma reachable_envSpeed: "reachable w \<Longrightarrow> envSpeed (snd w) = speed (fst w)"
  by (induction rule: reachable.induct) (simp_all add: initWorld_def capture_def step_envSpeed)

lemma food_start_0_list: "randomFoodPosition 0 [(9, 10), (10, 10)] 20 = (0, 0)"
  using food_start_0 by (simp add: startSnake_def)


lemma initWorld_half:
  "initWorld (1 / 2) 0 =
     (\<lparr>gridSize = 20, direction = (1, 0), snake = [(9, 10), (10, 10)], food = (10, 0),
       running = False, speed = 8, score = 0, highScore = 0, wrapWalls = True,
       dirRef = (1, 0), snakeRef = [(9, 10), (10, 10)], runningRef = False\<rparr>,
      \<lparr>envFood = (10, 0), envWrapWalls = True, envScore = 0, envSpeed = 8\<rparr>)"
  by (simp add: initWorld_def initGame_def food_start_half capture_def) (simp add: startSnake_def)

lemmas step_defs =
  render_def syncRefs_def tickEffect_def capture_def tick_def moveSnake_def Let_def
  newHead_def rawHead_def wrapCoord_def outOfRange_def endGame_def handleKey_def keyMap_def
  togglePause_def toggleWallMode_def setSpeed_def



lemma run_staleFood: "run upTheColumn (initWorld (1 / 2) 0) = Inr staleFood"
  by (simp add: initWorld_half upTheColumn_def staleFood_def step_defs resetGame_def
      food_start_0_list startSnake_def)

section \<open>Solid walls\<close>




section \<open>Reversal requests\<close>

lemma keyMap_not_space: "keyMap k = Some nd \<Longrightarrow> k \<noteq> '' '' \<and> k \<noteq> ''Spacebar''"
  by (auto simp: keyMap_def)

lemma handleKey_reverse:
  "keyMap k = Some (- fst (dirRef s), - snd (dirRef s)) \<Longrightarrow> handleKey k s = s"
  using keyMap_not_space[of k] by (simp add: handleKey_def)

lemma turn_reverse: "turn (- fst (dirRef s)) (- snd (dirRef s)) s = s"
  by (simp add: turn_def)

lemma handleKeyPress_reverse:
  "unitDir (directionRefA t) \<Longrightarrow>
   keyDirA (toLowerCase k) = Some (- fst (directionRefA t), - snd (directionRefA t))
   \<Longrightarrow> handleKeyPress k t = t"
proof -
  assume u: "unitDir (directionRefA t)"
    and k: "keyDirA (toLowerCase k) = Some (- fst (directionRefA t), - snd (directionRefA t))"
  consider "directionRefA t = (0, - 1)" | "directionRefA t = (0, 1)"
    | "directionRefA t = (- 1, 0)" | "directionRefA t = (1, 0)"
    using u by (auto simp: unitDir_def)
  then show ?thesis
  proof cases
    case 1
    then have "toLowerCase k = ''arrowdown'' \<or> toLowerCase k = ''s''"
      using k by (simp add: keyDirA_def split: if_splits)
    then show ?thesis using 1 by (auto simp: handleKeyPress_def)
  next
    case 2
    then have "toLowerCase k = ''arrowup'' \<or> toLowerCase k = ''w''"
      using k by (simp add: keyDirA_def split: if_splits)
    then show ?thesis using 2 by (auto simp: handleKeyPress_def)
  next
    case 3
    then have "toLowerCase k = ''arrowright'' \<or> toLowerCase k = ''d''"
      using k by (simp add: keyDirA_def split: if_splits)
    then show ?thesis using 3 by (auto simp: handleKeyPress_def)
  next
    case 4
    then have "toLowerCase k = ''arrowleft'' \<or> toLowerCase k = ''a''"
      using k by (simp add: keyDirA_def split: if_splits)
    then show ?thesis using 4 by (auto simp: handleKeyPress_def)
  qed
qed

lemma lower_ArrowLeft: "toLowerCase ''ArrowLeft'' = ''arrowleft''"
  by code_simp

lemma lower_ArrowUp: "toLowerCase ''ArrowUp'' = ''arrowup''"
  by code_simp

text \<open>
  Claim C9. When the committed direction is \<open>d\<close> and nothing else is pending, a single
  request for the opposite direction changes nothing: the key handler and the on-screen
  button of the canvas component, and the key handler of the DOM component, return the
  state they were given.
\<close>

theorem reversal_request_is_noop:
  "(direction s = d \<and> dirRef s = d \<and> keyMap k = Some (- fst d, - snd d) \<longrightarrow> handleKey k s = s)
   \<and> (direction s = d \<and> dirRef s = d \<longrightarrow> turn (- fst d) (- snd d) s = s)
   \<and> (directionA t = e \<and> directionRefA t = e \<and> unitDir e
        \<and> keyDirA (toLowerCase k') = Some (- fst e, - snd e) \<longrightarrow> handleKeyPress k' t = t)"
  using handleKey_reverse[of k s] turn_reverse[of s] handleKeyPress_reverse[of t k']
  by auto

theorem reversal_request_is_noop_witness:
  "direction solidEdge = (1, 0) \<and> dirRef solidEdge = (1, 0)
   \<and> keyMap ''ArrowLeft'' = Some (- fst (1 :: int, 0 :: int), - snd (1 :: int, 0 :: int))
   \<and> directionA solidEdgeA = (1, 0) \<and> directionRefA solidEdgeA = (1, 0) \<and> unitDir (1, 0)
   \<and> keyDirA (toLowerCase ''ArrowLeft'') = Some (- fst (1 :: int, 0 :: int), - snd (1 :: int, 0 :: int))
   \<and> handleKey ''ArrowLeft'' solidEdge = solidEdge
   \<and> turn (- 1) 0 solidEdge = solidEdge
   \<and> handleKeyPress ''ArrowLeft'' solidEdgeA = solidEdgeA"
  using reversal_request_is_noop[where s = solidEdge and d = "(1, 0)" and k = "''ArrowLeft''"
      and t = solidEdgeA and e = "(1, 0)" and k' = "''ArrowLeft''"]
  by (simp add: solidEdge_def solidEdgeA_def keyMap_def keyDirA_def unitDir_def lower_ArrowLeft)

section \<open>Entering the tail cell\<close>

text \<open>
  Claim C1, as the code has it. Both components test the new head against the whole
  current body, the tail cell included, before the tail is removed: a tick whose new head
  (after the wall policy) is the current tail cell ends the game and leaves the snake as
  it was.
\<close>

theorem tail_cell_counts_as_collision:
  "(snakeRef s \<noteq> [] \<and> newHead c s = hd (snakeRef s) \<longrightarrow>
      moveSnake c u s = Inr (endGame c s) \<and> \<not> running (endGame c s)
      \<and> snake (endGame c s) = snake s)
   \<and> (snakeA t \<noteq> [] \<and> newHeadA t = last (snakeA t) \<longrightarrow>
      gameLoop rnd t = Some (Inr (endGameA t)) \<and> phaseA (endGameA t) = Over
      \<and> snakeA (endGameA t) = snakeA t)"
  using moveSnake_collide[where c = c and s = s and u = u] endGame_frame[where c = c and s = s]
    gameLoop_collide[where t = t and rnd = rnd] endGameA_frame[where t = t]
  by simp

theorem tail_cell_counts_as_collision_witness:
  "snakeRef tailChase \<noteq> [] \<and> newHead (capture tailChase) tailChase = hd (snakeRef tailChase)
   \<and> snakeA tailChaseA \<noteq> [] \<and> newHeadA tailChaseA = last (snakeA tailChaseA)
   \<and> moveSnake (capture tailChase) 0 tailChase = Inr (endGame (capture tailChase) tailChase)
   \<and> \<not> running (endGame (capture tailChase) tailChase)
   \<and> snake (endGame (capture tailChase) tailChase) = [(5, 5), (5, 6), (6, 6), (6, 5)]
   \<and> gameLoop zeroDraws tailChaseA = Some (Inr (endGameA tailChaseA))
   \<and> phaseA (endGameA tailChaseA) = Over
   \<and> snakeA (endGameA tailChaseA) = [(6, 5), (6, 6), (5, 6), (5, 5)]"
  using tail_cell_counts_as_collision[where c = "capture tailChase" and s = tailChase
      and u = 0 and t = tailChaseA and rnd = zeroDraws]
  by (simp add: tailChase_def tailChaseA_def newHead_def rawHead_def wrapCoord_def
      newHeadA_def rawHeadA_def capture_def)

text \<open>
  The claim as written (the move into the tail cell is a plain translation and the game
  goes on) fails for the square snake: neither the food nor a wall is involved, the new
  head is the tail cell, and the tick ends the game without moving the snake.
\<close>

theorem tail_cell_move_counterexample:
  "2 \<le> length (snakeRef tailChase) \<and> snakeRef tailChase = snake tailChase
   \<and> distinct (snake tailChase) \<and> running tailChase
   \<and> newHead (capture tailChase) tailChase = hd (snakeRef tailChase)
   \<and> newHead (capture tailChase) tailChase \<noteq> food tailChase
   \<and> moveSnake (capture tailChase) 0 tailChase = Inr (endGame (capture tailChase) tailChase)
   \<and> \<not> running (endGame (capture tailChase) tailChase)
   \<and> snake (endGame (capture tailChase) tailChase)
       \<noteq> tl (snake tailChase) @ [newHead (capture tailChase) tailChase]
   \<and> 2 \<le> length (snakeA tailChaseA) \<and> distinct (snakeA tailChaseA)
   \<and> phaseA tailChaseA = Running
   \<and> newHeadA tailChaseA = last (snakeA tailChaseA) \<and> newHeadA tailChaseA \<noteq> foodA tailChaseA
   \<and> gameLoop zeroDraws tailChaseA = Some (Inr (endGameA tailChaseA))
   \<and> phaseA (endGameA tailChaseA) = Over
   \<and> snakeA (endGameA tailChaseA) \<noteq> newHeadA tailChaseA # butlast (snakeA tailChaseA)"
  by (simp add: moveSnake_def gameLoop_def Let_def tailChase_def tailChaseA_def newHead_def
      rawHead_def wrapCoord_def newHeadA_def rawHeadA_def outOfRangeA_def GRID_SIZE_def
      endGame_def endGameA_def phaseA_def capture_def)

section \<open>Wrapping walls\<close>










section \<open>Several turns within one tick\<close>

text \<open>
  Claim C3 says that no sequence of direction requests within one tick can make the next
  tick consume the opposite of the direction committed at the previous tick. Both key
  handlers compare a request with the pending direction, not with the committed one:
  the keys up and left, pressed between two ticks of a snake that runs to the right, leave
  the pending direction \<open>(-1, 0)\<close>, and the next tick runs the head into the neck.
\<close>

theorem rapid_turns_reverse_direction:
  "dirRef cruising = (1, 0) \<and> runningRef cruising
   \<and> dirRef upLeft = (- 1, 0)
   \<and> tick (capture cruising) 0 upLeft = Inr (endGame (capture cruising) upLeft)
   \<and> \<not> running (endGame (capture cruising) upLeft)
   \<and> directionA cruisingA = (1, 0) \<and> phaseA cruisingA = Running
   \<and> directionA upLeftA = (1, 0) \<and> directionRefA upLeftA = (- 1, 0)
   \<and> tickA zeroDraws upLeftA = Some (Inr (endGameA upLeftA))
   \<and> directionA (endGameA upLeftA) = (- 1, 0) \<and> phaseA (endGameA upLeftA) = Over"
  by (simp add: cruising_def cruisingA_def upLeft_def upLeftA_def syncRefs_def handleKey_def
      keyMap_def handleKeyPress_def lower_ArrowUp lower_ArrowLeft Let_def tick_def tickA_def
      moveSnake_def gameLoop_def newHead_def newHeadA_def rawHead_def rawHeadA_def
      wrapCoord_def outOfRangeA_def GRID_SIZE_def endGame_def endGameA_def phaseA_def
      capture_def)

text \<open>
  The guards on the way are passed: the DOM game is playing and not over when the keys
  arrive and when the interval fires, so the tick is the loop body; the canvas game is
  running, so the tick is \<open>moveSnake\<close>.
\<close>

theorem rapid_turns_reverse_direction_witness:
  "isPlayingA cruisingA \<and> \<not> gameOverA cruisingA
   \<and> isPlayingA upLeftA \<and> \<not> gameOverA upLeftA
   \<and> gameLoop zeroDraws upLeftA = Some (Inr (endGameA upLeftA))
   \<and> runningRef upLeft
   \<and> moveSnake (capture cruising) 0 upLeft = Inr (endGame (capture cruising) upLeft)
   \<and> dirRef upLeft = (- 1, 0) \<and> directionRefA upLeftA = (- 1, 0)"
  using rapid_turns_reverse_direction
  by (simp add: cruising_def cruisingA_def upLeft_def upLeftA_def syncRefs_def handleKey_def
      keyMap_def handleKeyPress_def lower_ArrowUp lower_ArrowLeft Let_def tick_def tickA_def
      capture_def)

section \<open>After the game is over\<close>

text \<open>
  Claim C4, as the code has it. In the DOM component a state with \<open>gameOver\<close> set is
  left only by \<open>resetGameA\<close>: key presses return the state unchanged, the mode buttons
  keep the phase Over, and the tick does not advance. In the canvas component
  \<open>toggleWallMode\<close> leaves the running flag as it is, and the pause toggle (button or
  space key) inverts it in every state, also after \<open>endGame\<close>.
\<close>

theorem game_over_final_in_dom_component:
  "(gameOverA t \<longrightarrow>
      handleKeyPress k t = t \<and> phaseA (setGameMode m t) = Over \<and> tickA rnd t = Some (Inr t))
   \<and> running (toggleWallMode s) = running s
   \<and> running (togglePause s) = (\<not> running s)
   \<and> running (handleKey '' '' s) = (\<not> running s)"
  by (simp add: handleKeyPress_def setGameMode_def phaseA_def tickA_def toggleWallMode_def
      togglePause_def handleKey_def)

theorem game_over_final_in_dom_component_witness:
  "gameOverA (endGameA solidEdgeA)
   \<and> handleKeyPress ''ArrowUp'' (endGameA solidEdgeA) = endGameA solidEdgeA
   \<and> phaseA (setGameMode PassThrough (endGameA solidEdgeA)) = Over
   \<and> tickA zeroDraws (endGameA solidEdgeA) = Some (Inr (endGameA solidEdgeA))"
  using game_over_final_in_dom_component[where t = "endGameA solidEdgeA" and k = "''ArrowUp''"
      and m = PassThrough and rnd = zeroDraws]
  by (simp add: endGameA_def)

text \<open>
  The claim as written fails in the canvas component, which has no phase Over of its own:
  after the snake has hit the solid wall, pressing the up key and then space sets the game
  running again, and the next tick moves the snake on, up along the wall.
\<close>

theorem canvas_resumes_after_game_over:
  "tick (capture solidEdge) 0 solidEdge = Inr (endGame (capture solidEdge) solidEdge)
   \<and> \<not> running afterWallHit
   \<and> snake afterWallHit = [(18, 10), (19, 10)]
   \<and> running resumed \<and> runningRef resumed \<and> dirRef resumed = (0, - 1)
   \<and> tick (capture solidEdge) 0 resumed = Inr (resumed\<lparr>snake := [(19, 10), (19, 9)]\<rparr>)"
  by (simp add: solidEdge_def afterWallHit_def resumed_def tick_def moveSnake_def Let_def
      outOfRange_def rawHead_def newHead_def endGame_def syncRefs_def handleKey_def keyMap_def
      capture_def)

section \<open>Reset\<close>

lemma resetGame_food_free:
  assumes "unitInterval u" and "gridSize s = 20"
  shows "food (resetGame u s) \<in> set (gridCells 20)
         \<and> food (resetGame u s) \<notin> set (snake (resetGame u s))"
proof -
  have "(0, 0) \<in> set (gridCells 20) \<and> (0, 0) \<notin> set (startSnake 20)"
    by (simp add: set_gridCells startSnake_def)
  then have "\<exists>c\<in>set (gridCells 20). c \<notin> set (startSnake 20)" by blast
  then show ?thesis
    using randomFoodPosition_free[of u 20 "startSnake 20"] assms
    by (simp add: resetGame_def Let_def)
qed

lemma resetGame_fields:
  "snake (resetGame u s) = startSnake (gridSize s)
   \<and> direction (resetGame u s) = (1, 0) \<and> dirRef (resetGame u s) = (1, 0)
   \<and> score (resetGame u s) = 0 \<and> speed (resetGame u s) = 8 \<and> \<not> running (resetGame u s)
   \<and> food (resetGame u s) = randomFoodPosition u (startSnake (gridSize s)) (gridSize s)
   \<and> wrapWalls (resetGame u s) = wrapWalls s \<and> highScore (resetGame u s) = highScore s"
  by (simp add: resetGame_def Let_def)

lemma resetGame_twice: "resetGame u (resetGame u' s) = resetGame u s"
  by (simp add: resetGame_def Let_def)

lemma resetGame_is_initial:
  "gridSize s = 20 \<Longrightarrow>
   syncRefs (resetGame u s) = (initGame u (highScore s))\<lparr>wrapWalls := wrapWalls s\<rparr>"
  by (simp add: resetGame_def Let_def syncRefs_def initGame_def)

lemma resetGameA_fields:
  "resetGameA t = initApp\<lparr>isPlayingA := True, gameModeA := gameModeA t\<rparr>
   \<and> phaseA (resetGameA t) = Running
   \<and> resetGameA (resetGameA t) = resetGameA t"
  by (simp add: resetGameA_def initApp_def phaseA_def)

text \<open>
  Claim C2, as the code has it. From every prior state the reset of the canvas component
  restores the start snake, the direction \<open>(1, 0)\<close>, score 0 and speed 8, stops the game,
  keeps the wall mode and the high score, and places the food at the cell that the random
  draw selects among the cells outside the start snake; a second reset overrides the first,
  so that two resets with the same draw equal one. After the render the state is the
  initial state for that draw, up to the wall mode. The reset of the DOM component yields
  the initial state except that the game is started and the mode is kept, and it is
  idempotent.
\<close>

theorem reset_restores_fixed_values:
  "snake (resetGame u s) = startSnake (gridSize s)
   \<and> direction (resetGame u s) = (1, 0) \<and> dirRef (resetGame u s) = (1, 0)
   \<and> score (resetGame u s) = 0 \<and> speed (resetGame u s) = 8 \<and> \<not> running (resetGame u s)
   \<and> food (resetGame u s) = randomFoodPosition u (startSnake (gridSize s)) (gridSize s)
   \<and> wrapWalls (resetGame u s) = wrapWalls s \<and> highScore (resetGame u s) = highScore s
   \<and> resetGame u (resetGame u' s) = resetGame u s
   \<and> (gridSize s = 20 \<longrightarrow>
        syncRefs (resetGame u s) = (initGame u (highScore s))\<lparr>wrapWalls := wrapWalls s\<rparr>)
   \<and> (unitInterval u \<and> gridSize s = 20 \<longrightarrow>
        food (resetGame u s) \<in> set (gridCells 20)
        \<and> food (resetGame u s) \<notin> set (snake (resetGame u s)))
   \<and> resetGameA t = initApp\<lparr>isPlayingA := True, gameModeA := gameModeA t\<rparr>
   \<and> phaseA (resetGameA t) = Running
   \<and> resetGameA (resetGameA t) = resetGameA t"
  using resetGame_fields[of u s] resetGame_twice[of u u' s] resetGame_is_initial[of s u]
    resetGame_food_free[of u s] resetGameA_fields[of t]
  by blast

theorem reset_restores_fixed_values_witness:
  "gridSize tailChase = 20 \<and> unitInterval 0
   \<and> syncRefs (resetGame 0 tailChase) = (initGame 0 2)\<lparr>wrapWalls := True\<rparr>
   \<and> snake (resetGame 0 tailChase) = startSnake 20
   \<and> food (resetGame 0 tailChase) = (0, 0)
   \<and> food (resetGame 0 tailChase) \<notin> set (snake (resetGame 0 tailChase))
   \<and> resetGameA tailChaseA = initApp\<lparr>isPlayingA := True\<rparr>"
proof -
  note r = reset_restores_fixed_values[where s = tailChase and u = 0 and u' = "1 / 2"
      and t = tailChaseA]
  have g: "gridSize tailChase = 20" and h: "highScore tailChase = 2"
    and w: "wrapWalls tailChase = True" and m: "gameModeA tailChaseA = Walls"
    by (simp_all add: tailChase_def tailChaseA_def)
  have ui: "unitInterval 0" by (simp add: unitInterval_def)
  from r g have "syncRefs (resetGame 0 tailChase)
      = (initGame 0 (highScore tailChase))\<lparr>wrapWalls := wrapWalls tailChase\<rparr>"
    by blast
  then have a: "syncRefs (resetGame 0 tailChase) = (initGame 0 2)\<lparr>wrapWalls := True\<rparr>"
    by (simp only: h w)
  from r have "snake (resetGame 0 tailChase) = startSnake (gridSize tailChase)" by blast
  then have b: "snake (resetGame 0 tailChase) = startSnake 20" by (simp only: g)
  from r have "food (resetGame 0 tailChase)
      = randomFoodPosition 0 (startSnake (gridSize tailChase)) (gridSize tailChase)"
    by blast
  then have c: "food (resetGame 0 tailChase) = (0, 0)" by (simp only: g food_start_0)
  from r g ui have d: "food (resetGame 0 tailChase) \<notin> set (snake (resetGame 0 tailChase))"
    by blast
  from r have "resetGameA tailChaseA
      = initApp\<lparr>isPlayingA := True, gameModeA := gameModeA tailChaseA\<rparr>"
    by blast
  then have e: "resetGameA tailChaseA = initApp\<lparr>isPlayingA := True\<rparr>"
    by (simp add: m initApp_def)
  show ?thesis using g ui a b c d e by blast
qed

text \<open>
  The claim as written fails: in the canvas component two resets with different draws
  place different food, and in the DOM component the phase after a reset is Running, not
  Paused; the wall mode of the prior state survives the reset.
\<close>

theorem reset_not_canonical_counterexample:
  "food (resetGame 0 cruising) = (0, 0) \<and> food (resetGame (1 / 2) cruising) = (10, 0)
   \<and> food (resetGame 0 cruising) \<noteq> food (resetGame (1 / 2) cruising)
   \<and> resetGame (1 / 2) (resetGame 0 cruising) \<noteq> resetGame 0 cruising
   \<and> phaseA (resetGameA initApp) = Running \<and> phaseA (resetGameA initApp) \<noteq> Paused
   \<and> gameModeA (resetGameA wrapEdgeA) \<noteq> gameModeA (resetGameA solidEdgeA)"
  by (simp add: resetGame_def Let_def cruising_def food_start_0 food_start_half resetGameA_def
      initApp_def phaseA_def wrapEdgeA_def solidEdgeA_def)

section \<open>The snake never overlaps itself\<close>

lemma snakeInv_init: "snakeInv (fst (initWorld u h))"
  by (simp add: snakeInv_def initWorld_def initGame_def startSnake_def)

lemma snakeInv_resetGame: "snakeInv (syncRefs (resetGame u s))"
  by (simp add: snakeInv_def syncRefs_def resetGame_def Let_def startSnake_def)

lemma snakeInv_moveSnake:
  assumes "snakeInv s" and "moveSnake c u s = Inr s'"
  shows "snakeInv (syncRefs s')"
proof -
  have ref: "snakeRef s = snake s" and ne: "snake s \<noteq> []" and dist: "distinct (snake s)"
    using assms(1) by (simp_all add: snakeInv_def)
  consider (over) "s' = endGame c s"
    | (eat) "newHead c s \<notin> set (snake s)" "snake s' = snake s @ [newHead c s]"
    | (slide) "newHead c s \<notin> set (snake s)" "snake s' = tl (snake s @ [newHead c s])"
    using assms(2) ref ne by (auto simp: moveSnake_def Let_def split: if_splits)
  then show ?thesis
  proof cases
    case over
    then show ?thesis using ne dist by (simp add: snakeInv_def syncRefs_def endGame_def)
  next
    case eat
    then show ?thesis using ne dist by (simp add: snakeInv_def syncRefs_def)
  next
    case slide
    have "tl (snake s @ [newHead c s]) = tl (snake s) @ [newHead c s]" using ne by simp
    moreover have "distinct (tl (snake s))" using dist by (simp add: distinct_tl)
    moreover have "newHead c s \<notin> set (tl (snake s))"
      using slide(1) ne by (metis list.set_sel(2))
    ultimately show ?thesis using slide(2) by (simp add: snakeInv_def syncRefs_def)
  qed
qed

lemma snake_handleKey: "snake (handleKey k s) = snake s"
  by (simp add: handleKey_def Let_def split: option.split)

lemma snake_turn: "snake (turn dx dy s) = snake s"
  by (simp add: turn_def Let_def)

lemma snakeInv_render: "snakeInv (syncRefs s) \<Longrightarrow> snakeInv (fst (render (s, c)))"
  by (simp add: render_def)

lemma snakeInv_syncRefs: "snake s' = snake s \<Longrightarrow> snakeInv s \<Longrightarrow> snakeInv (syncRefs s')"
  by (simp add: snakeInv_def syncRefs_def)

lemma snakeInv_step:
  assumes "snakeInv (fst w)" and "step e w = Inr w'"
  shows "snakeInv (fst w')"
proof -
  obtain s c where w: "w = (s, c)" by (cases w)
  have inv: "snakeInv s" using assms(1) w by simp
  show ?thesis
  proof (cases e)
    case (KeyDown k)
    then have "w' = render (handleKey k s, c)" using assms(2) w by simp
    then show ?thesis
      using snakeInv_syncRefs[OF snake_handleKey inv] by (simp add: render_def)
  next
    case (Frame u)
    show ?thesis
    proof (cases "runningRef s")
      case True
      then obtain m where m: "moveSnake c u s = Inr m" and "w' = render (m, c)"
        using assms(2) Frame w by (cases "moveSnake c u s") (auto simp: tick_def)
      then show ?thesis using snakeInv_moveSnake[OF inv m] by (simp add: render_def)
    next
      case False
      then have "w' = render (s, c)" using assms(2) Frame w by (simp add: tick_def)
      then show ?thesis using snakeInv_syncRefs[OF refl inv] by (simp add: render_def)
    qed
  next
    case ClickPause
    then have "w' = render (togglePause s, c)" using assms(2) w by simp
    moreover have "snake (togglePause s) = snake s" by (simp add: togglePause_def)
    ultimately show ?thesis using snakeInv_syncRefs inv by (simp add: render_def)
  next
    case (ClickReset u)
    then have "w' = render (resetGame u s, c)" using assms(2) w by simp
    then show ?thesis using snakeInv_resetGame[of u s] by (simp add: render_def)
  next
    case ClickWalls
    then have "w' = render (toggleWallMode s, c)" using assms(2) w by simp
    moreover have "snake (toggleWallMode s) = snake s" by (simp add: toggleWallMode_def)
    ultimately show ?thesis using snakeInv_syncRefs inv by (simp add: render_def)
  next
    case ClickClearHigh
    then have "w' = render (clearHigh s, c)" using assms(2) w by simp
    moreover have "snake (clearHigh s) = snake s" by (simp add: clearHigh_def)
    ultimately show ?thesis using snakeInv_syncRefs inv by (simp add: render_def)
  next
    case (SlideSpeed v)
    then have "w' = render (setSpeed v s, c)" using assms(2) w by simp
    moreover have "snake (setSpeed v s) = snake s" by (simp add: setSpeed_def)
    ultimately show ?thesis using snakeInv_syncRefs inv by (simp add: render_def)
  next
    case (ClickTurn dx dy)
    then have "w' = render (turn dx dy s, c)" using assms(2) w by simp
    then show ?thesis
      using snakeInv_syncRefs[OF snake_turn inv] by (simp add: render_def)
  qed
qed

lemma reachable_snakeInv: "reachable w \<Longrightarrow> snakeInv (fst w)"
proof (induction rule: reachable.induct)
  case (init u h)
  show ?case by (rule snakeInv_init)
next
  case (after w e w')
  then show ?case using snakeInv_step by blast
qed

lemma snakeA_handleKeyPress: "snakeA (handleKeyPress k t) = snakeA t"
  by (simp add: handleKeyPress_def Let_def)

lemma snakeInvA_gameLoop:
  assumes "snakeInvA t" and "gameLoop rnd t = Some (Inr t')"
  shows "snakeInvA t'"
proof -
  have ne: "snakeA t \<noteq> []" and dist: "distinct (snakeA t)"
    using assms(1) by (simp_all add: snakeInvA_def)
  consider (over) "t' = endGameA t"
    | (eat) "newHeadA t \<notin> set (snakeA t)" "snakeA t' = newHeadA t # snakeA t"
    | (slide) "newHeadA t \<notin> set (snakeA t)" "snakeA t' = butlast (newHeadA t # snakeA t)"
    using assms(2) ne by (auto simp: gameLoop_def Let_def split: if_splits option.splits)
  then show ?thesis
  proof cases
    case over
    then show ?thesis using ne dist by (simp add: snakeInvA_def endGameA_def)
  next
    case eat
    then show ?thesis using dist by (simp add: snakeInvA_def)
  next
    case slide
    have "newHeadA t \<notin> set (butlast (snakeA t))"
      using slide(1) by (meson in_set_butlastD)
    then show ?thesis using slide(2) ne dist by (simp add: snakeInvA_def distinct_butlast)
  qed
qed

lemma snakeInvA_tickA:
  assumes "snakeInvA t" and "tickA rnd t = Some (Inr t')"
  shows "snakeInvA t'"
  using assms snakeInvA_gameLoop[of t rnd t'] by (auto simp: tickA_def split: if_splits)

lemma reachableA_snakeInvA: "reachableA t \<Longrightarrow> snakeInvA t"
proof (induction rule: reachableA.induct)
  case initA
  show ?case by (simp add: snakeInvA_def initApp_def INITIAL_SNAKE_def)
next
  case (keyA s k)
  then show ?case by (simp add: snakeInvA_def snakeA_handleKeyPress)
next
  case (tickA s rnd s')
  then show ?case using snakeInvA_tickA by blast
next
  case (resetA s)
  show ?case by (simp add: snakeInvA_def resetGameA_def INITIAL_SNAKE_def)
next
  case (modeA s m)
  then show ?case by (simp add: snakeInvA_def setGameMode_def)
qed

text \<open>
  Claim C5. In every reachable state of either component (whatever the phase, and whatever
  frame callback the canvas component holds) the snake has no duplicate cell and at least
  one cell. The invariant is preserved by every event: a tick, a direction request, a
  reset, a change of the wall mode, and the other buttons.
\<close>

theorem snake_never_overlaps:
  "(reachable w \<longrightarrow> distinct (snake (fst w)) \<and> 1 \<le> length (snake (fst w)))
   \<and> (snakeInv (fst w) \<and> step e w = Inr w' \<longrightarrow> snakeInv (fst w'))
   \<and> (reachableA t \<longrightarrow> distinct (snakeA t) \<and> 1 \<le> length (snakeA t))
   \<and> (snakeInvA t \<longrightarrow>
        snakeInvA (handleKeyPress k t) \<and> snakeInvA (resetGameA t) \<and> snakeInvA (setGameMode m t)
        \<and> (tickA rnd t = Some (Inr t') \<longrightarrow> snakeInvA t'))"
proof (intro conjI impI)
  assume "reachable w"
  then have "snakeInv (fst w)" by (rule reachable_snakeInv)
  then show "distinct (snake (fst w))" and "1 \<le> length (snake (fst w))"
    by (simp_all add: snakeInv_def Suc_le_eq)
next
  assume "snakeInv (fst w) \<and> step e w = Inr w'"
  then show "snakeInv (fst w')" using snakeInv_step by blast
next
  assume "reachableA t"
  then have "snakeInvA t" by (rule reachableA_snakeInvA)
  then show "distinct (snakeA t)" and "1 \<le> length (snakeA t)"
    by (simp_all add: snakeInvA_def Suc_le_eq)
next
  assume i: "snakeInvA t"
  then show "snakeInvA (handleKeyPress k t)" by (simp add: snakeInvA_def snakeA_handleKeyPress)
  show "snakeInvA (resetGameA t)" by (simp add: snakeInvA_def resetGameA_def INITIAL_SNAKE_def)
  show "snakeInvA (setGameMode m t)" using i by (simp add: snakeInvA_def setGameMode_def)
  show "snakeInvA t'" if "tickA rnd t = Some (Inr t')" using i that snakeInvA_tickA by blast
qed

lemma free_start_308: "filter (\<lambda>c. c \<notin> set (startSnake 20)) (gridCells 20) ! 308 = (15, 10)"
  by code_simp

lemma food_start_308: "randomFoodPosition (154 / 199) (startSnake 20) 20 = (15, 10)"
  by (simp add: randomFoodPosition_def Let_def free_start_length free_start_308
      del: length_0_conv)

lemma reachable_cruising: "reachable (cruising, capture cruising)"
proof -
  have "step ClickPause (initWorld (154 / 199) 0) = Inr (cruising, capture cruising)"
    by (simp add: initWorld_def initGame_def food_start_308 togglePause_def syncRefs_def
        render_def tickEffect_def capture_def)
      (simp add: cruising_def startSnake_def)
  then show ?thesis using reachable.init reachable.after by blast
qed

lemma reachableA_started: "reachableA (resetGameA initApp)"
  by (rule reachableA.resetA[OF reachableA.initA]) (simp add: phaseA_def initApp_def)

theorem snake_never_overlaps_witness:
  "reachable (cruising, capture cruising) \<and> snakeInv cruising
   \<and> step (Frame 0) (cruising, capture cruising)
       = Inr (syncRefs (cruising\<lparr>snake := [(10, 10), (11, 10)]\<rparr>), capture cruising)
   \<and> distinct (snake cruising) \<and> 1 \<le> length (snake cruising)
   \<and> snakeInv (syncRefs (cruising\<lparr>snake := [(10, 10), (11, 10)]\<rparr>))
   \<and> reachableA (resetGameA initApp) \<and> snakeInvA (resetGameA initApp)
   \<and> tickA zeroDraws (resetGameA initApp)
       = Some (Inr ((resetGameA initApp)\<lparr>snakeA := [(11, 10)]\<rparr>))
   \<and> distinct (snakeA (resetGameA initApp)) \<and> 1 \<le> length (snakeA (resetGameA initApp))
   \<and> snakeInvA ((resetGameA initApp)\<lparr>snakeA := [(11, 10)]\<rparr>)"
proof -
  have inv: "snakeInv cruising"
    by (simp add: snakeInv_def cruising_def)
  have st: "step (Frame 0) (cruising, capture cruising)
      = Inr (syncRefs (cruising\<lparr>snake := [(10, 10), (11, 10)]\<rparr>), capture cruising)"
    by (simp add: cruising_def tick_def moveSnake_def Let_def newHead_def rawHead_def
        wrapCoord_def capture_def render_def tickEffect_def)
  have invA: "snakeInvA (resetGameA initApp)"
    by (simp add: snakeInvA_def resetGameA_def INITIAL_SNAKE_def)
  have stA: "tickA zeroDraws (resetGameA initApp)
      = Some (Inr ((resetGameA initApp)\<lparr>snakeA := [(11, 10)]\<rparr>))"
    by (simp add: tickA_def gameLoop_def Let_def resetGameA_def initApp_def INITIAL_SNAKE_def
        INITIAL_DIRECTION_def newHeadA_def rawHeadA_def outOfRangeA_def GRID_SIZE_def)
  show ?thesis
    using snake_never_overlaps[where w = "(cruising, capture cruising)" and e = "Frame 0"
        and w' = "(syncRefs (cruising\<lparr>snake := [(10, 10), (11, 10)]\<rparr>), capture cruising)"
        and t = "resetGameA initApp" and rnd = zeroDraws
        and t' = "(resetGameA initApp)\<lparr>snakeA := [(11, 10)]\<rparr>"
        and k = "''ArrowUp''" and m = Walls]
      reachable_cruising reachableA_started inv st invA stA
    by simp
qed

section \<open>Food regeneration\<close>

lemma free_eat_length:
  "length (filter (\<lambda>c. c \<notin> set grownSnake) (gridCells 20)) = 397"
  by code_simp

lemma free_eat_198:
  "filter (\<lambda>c. c \<notin> set grownSnake) (gridCells 20) ! 198 = (9, 19)"
  by code_simp

lemma half_of_397: "nat \<lfloor>(1 / 2 :: real) * real (397 :: nat)\<rfloor> = 198"
  by simp

lemma food_eat_half_folded: "randomFoodPosition (1 / 2) grownSnake 20 = (9, 19)"
  using half_of_397
  by (simp add: randomFoodPosition_def Let_def free_eat_length free_eat_198
      del: length_0_conv)

lemma food_eat_half: "randomFoodPosition (1 / 2) [(9, 10), (10, 10), (11, 10)] 20 = (9, 19)"
  using food_eat_half_folded by (simp only: grownSnake_def)

lemma free_column_length:
  "length (filter (\<lambda>c. c \<notin> set columnSnake) (gridCells 20)) = 397"
  by code_simp

lemma free_column_198:
  "filter (\<lambda>c. c \<notin> set columnSnake) (gridCells 20) ! 198 = (9, 18)"
  by code_simp

lemma food_column_half: "randomFoodPosition (1 / 2) columnSnake 20 = (9, 18)"
  using half_of_397
  by (simp add: randomFoodPosition_def Let_def free_column_length free_column_198
      del: length_0_conv)

lemma generateFood_halfThenZero:
  "generateFood halfThenZero [(11, 10), (10, 10), (9, 10), (8, 10)] = Some (0, 0)"
  by (simp add: generateFood_def generateFoodFrom.simps candidate_def halfThenZero_def
      GRID_SIZE_def)

text \<open>
  Claim C6, as the code has it, for a tick that holds the current food (in the canvas
  component: the frame callback was created in a render with the present food; in the DOM
  component always). A tick whose new head differs from the food cell returns and leaves
  the food as it is. A tick whose new head is the food cell, that cell being in range and outside the
  snake, eats: the snake grows by the food cell and the food is placed anew. In the canvas
  component the new food lies in the grid and outside the grown snake whenever the grown
  snake leaves a grid cell free; when the grown snake covers the whole grid, the new food
  is the fallback cell \<open>(0, 0)\<close>. In the DOM component the tick returns whenever some
  draw of the rejection loop hits a cell outside the grown snake, and the new food is
  then outside the grown snake and, for draws in the unit interval, a grid cell.
\<close>

theorem food_regeneration:
  "(envFood c = food s \<and> newHead c s \<noteq> food s \<and> moveSnake c u s = Inr s' \<longrightarrow>
      food s' = food s)
   \<and> (envFood c = food s \<and> snakeRef s \<noteq> [] \<and> newHead c s = food s
        \<and> food s \<notin> set (snakeRef s) \<and> \<not> outOfRange (gridSize s) (food s) \<longrightarrow>
      moveSnake c u s =
        Inr (s\<lparr>score := score s + 1,
               food := randomFoodPosition u (snakeRef s @ [food s]) (gridSize s),
               speed := min 20 (speed s + 3 / 10),
               snake := snakeRef s @ [food s]\<rparr>))
   \<and> (unitInterval u \<and> (\<exists>x\<in>set (gridCells g). x \<notin> set sn) \<longrightarrow>
      randomFoodPosition u sn g \<in> set (gridCells g) \<and> randomFoodPosition u sn g \<notin> set sn)
   \<and> (set (gridCells g') \<subseteq> set sn' \<longrightarrow> randomFoodPosition u sn' g' = (0, 0))
   \<and> (newHeadA t \<noteq> foodA t \<longrightarrow>
      (\<exists>r. gameLoop rnd t = Some r)
      \<and> (gameLoop rnd t = Some (Inr t') \<longrightarrow> foodA t' = foodA t))
   \<and> (snakeA t \<noteq> [] \<and> newHeadA t = foodA t \<and> foodA t \<notin> set (snakeA t)
        \<and> \<not> outOfRangeA (foodA t)
        \<and> (\<exists>j. candidate rnd j \<notin> set (foodA t # snakeA t)) \<longrightarrow>
      (\<exists>f. gameLoop rnd t =
             Some (Inr (t\<lparr>scoreA := scoreA t + 10, foodA := f,
                          snakeA := foodA t # snakeA t, directionA := directionRefA t\<rparr>))
           \<and> f \<notin> set (foodA t # snakeA t)
           \<and> (validDraws rnd \<longrightarrow> f \<in> set (gridCells GRID_SIZE))))"
proof (intro conjI impI)
  assume "envFood c = food s \<and> newHead c s \<noteq> food s \<and> moveSnake c u s = Inr s'"
  then show "food s' = food s"
    using moveSnake_keeps_food[where c = c and s = s and u = u and s' = s'] by simp
next
  assume h: "envFood c = food s \<and> snakeRef s \<noteq> [] \<and> newHead c s = food s
        \<and> food s \<notin> set (snakeRef s) \<and> \<not> outOfRange (gridSize s) (food s)"
  then show "moveSnake c u s =
        Inr (s\<lparr>score := score s + 1,
               food := randomFoodPosition u (snakeRef s @ [food s]) (gridSize s),
               speed := min 20 (speed s + 3 / 10),
               snake := snakeRef s @ [food s]\<rparr>)"
    using moveSnake_eats[where c = c and s = s and u = u] by simp
next
  assume "unitInterval u \<and> (\<exists>x\<in>set (gridCells g). x \<notin> set sn)"
  then show "randomFoodPosition u sn g \<in> set (gridCells g)"
    and "randomFoodPosition u sn g \<notin> set sn"
    using randomFoodPosition_free[of u g sn] by simp_all
next
  assume "set (gridCells g') \<subseteq> set sn'"
  then show "randomFoodPosition u sn' g' = (0, 0)" by (rule randomFoodPosition_full)
next
  assume n: "newHeadA t \<noteq> foodA t"
  show "\<exists>r. gameLoop rnd t = Some r" using n by (rule gameLoop_returns_without_food)
  show "foodA t' = foodA t" if "gameLoop rnd t = Some (Inr t')"
    using n that by (rule gameLoop_keeps_food)
next
  assume "snakeA t \<noteq> [] \<and> newHeadA t = foodA t \<and> foodA t \<notin> set (snakeA t)
        \<and> \<not> outOfRangeA (foodA t)
        \<and> (\<exists>j. candidate rnd j \<notin> set (foodA t # snakeA t))"
  then show "\<exists>f. gameLoop rnd t =
             Some (Inr (t\<lparr>scoreA := scoreA t + 10, foodA := f,
                          snakeA := foodA t # snakeA t, directionA := directionRefA t\<rparr>))
           \<and> f \<notin> set (foodA t # snakeA t)
           \<and> (validDraws rnd \<longrightarrow> f \<in> set (gridCells GRID_SIZE))"
    using gameLoop_eats[of t rnd] by blast
qed

lemma validDraws_halfThenZero: "validDraws halfThenZero"
  by (simp add: validDraws_def halfThenZero_def unitInterval_def)

lemma candidate_halfThenZero_1: "candidate halfThenZero (Suc 0) = (0, 0)"
  by (simp add: candidate_def halfThenZero_def)

theorem food_regeneration_witness:
  "envFood (capture cruising) = food cruising
   \<and> newHead (capture cruising) cruising \<noteq> food cruising
   \<and> moveSnake (capture cruising) (1 / 2) cruising
       = Inr (cruising\<lparr>snake := [(10, 10), (11, 10)]\<rparr>)
   \<and> food (cruising\<lparr>snake := [(10, 10), (11, 10)]\<rparr>) = food cruising
   \<and> envFood (capture aboutToEat) = food aboutToEat
   \<and> snakeRef aboutToEat \<noteq> [] \<and> newHead (capture aboutToEat) aboutToEat = food aboutToEat
   \<and> food aboutToEat \<notin> set (snakeRef aboutToEat)
   \<and> \<not> outOfRange (gridSize aboutToEat) (food aboutToEat)
   \<and> moveSnake (capture aboutToEat) (1 / 2) aboutToEat =
       Inr (aboutToEat\<lparr>score := 1, food := (9, 19), speed := 83 / 10,
                        snake := [(9, 10), (10, 10), (11, 10)]\<rparr>)
   \<and> unitInterval (1 / 2) \<and> (0, 0) \<in> set (gridCells 20)
   \<and> (0, 0) \<notin> set [(9, 10), (10, 10), (11, 10 :: int)]
   \<and> randomFoodPosition (1 / 2) [(9, 10), (10, 10), (11, 10)] 20 \<in> set (gridCells 20)
   \<and> randomFoodPosition (1 / 2) [(9, 10), (10, 10), (11, 10)] 20
       \<notin> set [(9, 10), (10, 10), (11, 10)]
   \<and> set (gridCells 20) \<subseteq> set (serpentinePath 400)
   \<and> randomFoodPosition (1 / 2) (serpentinePath 400) 20 = (0, 0)
   \<and> newHeadA cruisingA \<noteq> foodA cruisingA
   \<and> gameLoop halfThenZero cruisingA
       = Some (Inr (cruisingA\<lparr>snakeA := [(11, 10), (10, 10), (9, 10)]\<rparr>))
   \<and> foodA (cruisingA\<lparr>snakeA := [(11, 10), (10, 10), (9, 10)]\<rparr>) = foodA cruisingA
   \<and> snakeA aboutToEatA \<noteq> [] \<and> newHeadA aboutToEatA = foodA aboutToEatA
   \<and> foodA aboutToEatA \<notin> set (snakeA aboutToEatA) \<and> \<not> outOfRangeA (foodA aboutToEatA)
   \<and> validDraws halfThenZero
   \<and> candidate halfThenZero 1 \<notin> set (foodA aboutToEatA # snakeA aboutToEatA)
   \<and> gameLoop halfThenZero aboutToEatA
       = Some (Inr (aboutToEatA\<lparr>scoreA := 30, foodA := (0, 0),
                                 snakeA := [(11, 10), (10, 10), (9, 10), (8, 10)]\<rparr>))
   \<and> (0, 0) \<notin> set [(11, 10), (10, 10), (9, 10), (8, 10 :: int)]
   \<and> (0, 0) \<in> set (gridCells GRID_SIZE)"
proof -
  have s1: "envFood (capture cruising) = food cruising" by (simp add: capture_def)
  have m1: "moveSnake (capture cruising) (1 / 2) cruising
      = Inr (cruising\<lparr>snake := [(10, 10), (11, 10)]\<rparr>)"
    by (simp add: cruising_def capture_def moveSnake_def Let_def newHead_def rawHead_def
        wrapCoord_def)
  have n1: "newHead (capture cruising) cruising \<noteq> food cruising"
    by (simp add: cruising_def capture_def newHead_def rawHead_def wrapCoord_def)
  have e1: "envFood (capture aboutToEat) = food aboutToEat
      \<and> snakeRef aboutToEat \<noteq> [] \<and> newHead (capture aboutToEat) aboutToEat = food aboutToEat
      \<and> food aboutToEat \<notin> set (snakeRef aboutToEat)
      \<and> \<not> outOfRange (gridSize aboutToEat) (food aboutToEat)"
    by (simp add: aboutToEat_def cruising_def capture_def newHead_def rawHead_def wrapCoord_def
        outOfRange_def)
  have g1: "unitInterval (1 / 2) \<and> (0, 0) \<in> set (gridCells 20)
      \<and> (0, 0) \<notin> set [(9, 10), (10, 10), (11, 10 :: int)]"
    by (simp add: unitInterval_def set_gridCells)
  have mA: "gameLoop halfThenZero cruisingA
       = Some (Inr (cruisingA\<lparr>snakeA := [(11, 10), (10, 10), (9, 10)]\<rparr>))"
    by (simp add: cruisingA_def gameLoop_def Let_def newHeadA_def rawHeadA_def outOfRangeA_def
        GRID_SIZE_def)
  have nA: "newHeadA cruisingA \<noteq> foodA cruisingA"
    by (simp add: cruisingA_def newHeadA_def rawHeadA_def)
  have eA: "snakeA aboutToEatA \<noteq> [] \<and> newHeadA aboutToEatA = foodA aboutToEatA
      \<and> foodA aboutToEatA \<notin> set (snakeA aboutToEatA) \<and> \<not> outOfRangeA (foodA aboutToEatA)"
    by (simp add: aboutToEatA_def cruisingA_def newHeadA_def rawHeadA_def outOfRangeA_def
        GRID_SIZE_def)
  have dA: "candidate halfThenZero 1 \<notin> set (foodA aboutToEatA # snakeA aboutToEatA)"
    by (simp add: candidate_halfThenZero_1 aboutToEatA_def cruisingA_def)
  have lA: "gameLoop halfThenZero aboutToEatA
       = Some (Inr (aboutToEatA\<lparr>scoreA := 30, foodA := (0, 0),
                                 snakeA := [(11, 10), (10, 10), (9, 10), (8, 10)]\<rparr>))"
    by (simp add: aboutToEatA_def cruisingA_def gameLoop_def Let_def newHeadA_def rawHeadA_def
        outOfRangeA_def GRID_SIZE_def generateFood_halfThenZero)
  have b1: "food (cruising\<lparr>snake := [(10, 10), (11, 10)]\<rparr>) = food cruising"
    using food_regeneration[where c = "capture cruising" and s = cruising and u = "1 / 2"
        and s' = "cruising\<lparr>snake := [(10, 10), (11, 10)]\<rparr>"] s1 n1 m1
    by blast
  have b2: "moveSnake (capture aboutToEat) (1 / 2) aboutToEat =
       Inr (aboutToEat\<lparr>score := 1, food := (9, 19), speed := 83 / 10,
                        snake := [(9, 10), (10, 10), (11, 10)]\<rparr>)"
    using food_regeneration[where c = "capture aboutToEat" and s = aboutToEat
        and u = "1 / 2"] e1
    by (simp add: aboutToEat_def cruising_def food_eat_half)
  have b3: "randomFoodPosition (1 / 2) [(9, 10), (10, 10), (11, 10)] 20 \<in> set (gridCells 20)
      \<and> randomFoodPosition (1 / 2) [(9, 10), (10, 10), (11, 10)] 20
          \<notin> set [(9, 10), (10, 10), (11, 10)]"
    using food_regeneration[where u = "1 / 2" and g = 20
        and sn = "[(9, 10), (10, 10), (11, 10)]"] g1
    by blast
  have b4: "randomFoodPosition (1 / 2) (serpentinePath 400) 20 = (0, 0)"
    using food_regeneration[where u = "1 / 2" and g' = 20 and sn' = "serpentinePath 400"]
      grid_in_serpentinePath
    by blast
  have b5: "foodA (cruisingA\<lparr>snakeA := [(11, 10), (10, 10), (9, 10)]\<rparr>) = foodA cruisingA"
    using food_regeneration[where t = cruisingA and rnd = halfThenZero
        and t' = "cruisingA\<lparr>snakeA := [(11, 10), (10, 10), (9, 10)]\<rparr>"] nA mA
    by blast
  from dA have ex: "\<exists>j. candidate halfThenZero j \<notin> set (foodA aboutToEatA # snakeA aboutToEatA)"
    by blast
  obtain f where f1: "gameLoop halfThenZero aboutToEatA =
        Some (Inr (aboutToEatA\<lparr>scoreA := scoreA aboutToEatA + 10, foodA := f,
               snakeA := foodA aboutToEatA # snakeA aboutToEatA,
               directionA := directionRefA aboutToEatA\<rparr>))"
    and f2: "f \<notin> set (foodA aboutToEatA # snakeA aboutToEatA)"
    and f3: "validDraws halfThenZero \<longrightarrow> f \<in> set (gridCells GRID_SIZE)"
    using food_regeneration[where t = aboutToEatA and rnd = halfThenZero] eA ex by blast
  have "foodA (aboutToEatA\<lparr>scoreA := scoreA aboutToEatA + 10, foodA := f,
               snakeA := foodA aboutToEatA # snakeA aboutToEatA,
               directionA := directionRefA aboutToEatA\<rparr>)
      = foodA (aboutToEatA\<lparr>scoreA := 30, foodA := (0, 0),
               snakeA := [(11, 10), (10, 10), (9, 10), (8, 10)]\<rparr>)"
    using f1 lA by simp
  then have fz: "f = (0, 0)" by simp
  have b6: "(0, 0) \<notin> set [(11, 10), (10, 10), (9, 10), (8, 10 :: int)]"
    using f2 fz by (simp add: aboutToEatA_def cruisingA_def)
  have b7: "(0, 0) \<in> set (gridCells GRID_SIZE)"
    using f3 fz validDraws_halfThenZero by simp
  show ?thesis
    using s1 m1 n1 e1 g1 mA nA eA dA lA b1 b2 b3 b4 b5 b6 b7 validDraws_halfThenZero
      grid_in_serpentinePath
    by blast
qed

text \<open>
  The claim as written fails in the canvas component, in two ways. When the snake eats
  the food on the last free cell, the grown snake covers the grid and the new food is the
  fallback \<open>(0, 0)\<close>, the tail cell. And after a reset at speed 8 the frame callback still
  holds the food of the render before: the tick whose new head is \<open>(10, 0)\<close> places the
  food anew although the food cell of the state is \<open>(0, 0)\<close>.
\<close>

theorem food_on_full_grid_counterexample:
  "gridSize nearlyFull = 20 \<and> snakeRef nearlyFull = snake nearlyFull
   \<and> distinct (snake nearlyFull) \<and> food nearlyFull \<notin> set (snake nearlyFull)
   \<and> envFood (capture nearlyFull) = food nearlyFull
   \<and> newHead (capture nearlyFull) nearlyFull = food nearlyFull
   \<and> moveSnake (capture nearlyFull) (1 / 2) nearlyFull =
       Inr (nearlyFull\<lparr>score := 398, food := (0, 0), speed := 20,
                        snake := serpentinePath 400\<rparr>)
   \<and> (0, 0) \<in> set (serpentinePath 400)
   \<and> run upTheColumn (initWorld (1 / 2) 0) = Inr staleFood
   \<and> food (fst staleFood) = (0, 0) \<and> runningRef (fst staleFood)
   \<and> newHead (snd staleFood) (fst staleFood) = (10, 0)
   \<and> tick (snd staleFood) (1 / 2) (fst staleFood) =
       Inr ((fst staleFood)\<lparr>score := 1, food := (9, 18), speed := 83 / 10,
                              snake := columnSnake\<rparr>)"
proof -
  have nh: "newHead (capture nearlyFull) nearlyFull = (19, 0)"
    by (simp add: nearlyFull_def capture_def newHead_def rawHead_def wrapCoord_def
        last_serpentinePath)
  have z: "(0, 0) \<in> set (serpentinePath 400)"
    using serpentine_covers[of 0 0] by simp
  have f: "randomFoodPosition (1 / 2) (serpentinePath 400) 20 = (0, 0)"
    using grid_in_serpentinePath by (rule randomFoodPosition_full)
  have ef: "envFood (capture nearlyFull) = (19, 0)"
    by (simp add: nearlyFull_def capture_def)
  have m: "moveSnake (capture nearlyFull) (1 / 2) nearlyFull =
       Inr (nearlyFull\<lparr>score := 398, food := (0, 0), speed := 20,
                        snake := serpentinePath 400\<rparr>)"
    using nh f ef
    by (simp add: moveSnake_def Let_def nearlyFull_def capture_def serpentinePath_nonempty
        free_cell_not_in_path serpentinePath_400)
  have snh: "newHead (snd staleFood) (fst staleFood) = (10, 0)"
    by (simp add: staleFood_def newHead_def rawHead_def wrapCoord_def)
  have col: "[(10, 2), (10, 1), (10, 0)] = columnSnake" by (simp add: columnSnake_def)
  have st: "tick (snd staleFood) (1 / 2) (fst staleFood) =
       Inr ((fst staleFood)\<lparr>score := 1, food := (9, 18), speed := 83 / 10,
                              snake := columnSnake\<rparr>)"
    using snh
    by (simp add: staleFood_def tick_def moveSnake_def Let_def col food_column_half)
  show ?thesis
    using nh z m snh st run_staleFood
    by (simp add: nearlyFull_def distinct_serpentinePath free_cell_not_in_path capture_def
        staleFood_def)
qed

section \<open>Termination of the food loop\<close>

lemma newHeadA_nearlyFullA: "newHeadA nearlyFullA = (19, 0)"
  by (simp add: nearlyFullA_def newHeadA_def rawHeadA_def hd_rev last_serpentinePath)

lemma rawHeadA_nearlyFullA: "rawHeadA nearlyFullA = (19, 0)"
  by (simp add: nearlyFullA_def rawHeadA_def hd_rev last_serpentinePath)

lemma generateFood_full_grid:
  assumes "validDraws rnd"
  shows "generateFood rnd ((19, 0) # rev (serpentinePath 399)) = None"
proof -
  have "set ((19, 0) # rev (serpentinePath 399)) = set (serpentinePath 400)"
    by (auto simp: serpentinePath_400)
  then have "\<forall>j. candidate rnd j \<in> set ((19, 0) # rev (serpentinePath 399))"
    using candidate_in_grid[of rnd] grid_in_serpentinePath assms
    by (auto simp: validDraws_def)
  then show ?thesis unfolding generateFood_def by (rule generateFoodFrom_none)
qed

text \<open>
  Claim C10 says that placing the food returns a cell for every snake, also for one that
  covers the grid. The rejection loop of the DOM component does not: when the snake eats
  the food on the last free cell, every candidate that \<^verbatim>\<open>Math.random\<close> can produce is a
  cell of the grown snake, the loop never exits, and neither does the tick. (The canvas
  component returns the fallback \<open>(0, 0)\<close> in the same position.)
\<close>

theorem food_loop_hangs_on_full_grid:
  "validDraws rnd \<longrightarrow>
     snakeA nearlyFullA \<noteq> [] \<and> distinct (snakeA nearlyFullA)
     \<and> \<not> outOfRangeA (newHeadA nearlyFullA)
     \<and> newHeadA nearlyFullA \<notin> set (snakeA nearlyFullA)
     \<and> newHeadA nearlyFullA = foodA nearlyFullA
     \<and> generateFood rnd (newHeadA nearlyFullA # snakeA nearlyFullA) = None
     \<and> gameLoop rnd nearlyFullA = None
     \<and> tickA rnd nearlyFullA = None"
proof
  assume v: "validDraws rnd"
  have g: "generateFood rnd ((19, 0) # rev (serpentinePath 399)) = None"
    using v by (rule generateFood_full_grid)
  have s: "snakeA nearlyFullA = rev (serpentinePath 399)" and f: "foodA nearlyFullA = (19, 0)"
    and m: "gameModeA nearlyFullA = Walls" and p: "isPlayingA nearlyFullA"
    and o: "\<not> gameOverA nearlyFullA"
    by (simp_all add: nearlyFullA_def)
  have r: "\<not> outOfRangeA (19, 0)" by (simp add: outOfRangeA_def GRID_SIZE_def)
  have l: "gameLoop rnd nearlyFullA = None"
    using g r
    by (simp add: gameLoop_def Let_def s f m newHeadA_nearlyFullA rawHeadA_nearlyFullA
        serpentinePath_nonempty free_cell_not_in_path)
  show "snakeA nearlyFullA \<noteq> [] \<and> distinct (snakeA nearlyFullA)
     \<and> \<not> outOfRangeA (newHeadA nearlyFullA)
     \<and> newHeadA nearlyFullA \<notin> set (snakeA nearlyFullA)
     \<and> newHeadA nearlyFullA = foodA nearlyFullA
     \<and> generateFood rnd (newHeadA nearlyFullA # snakeA nearlyFullA) = None
     \<and> gameLoop rnd nearlyFullA = None
     \<and> tickA rnd nearlyFullA = None"
    using g r l
    by (simp add: tickA_def s f p o newHeadA_nearlyFullA serpentinePath_nonempty
        free_cell_not_in_path distinct_serpentinePath)
qed

theorem food_loop_hangs_on_full_grid_witness:
  "validDraws zeroDraws \<and> isPlayingA nearlyFullA \<and> \<not> gameOverA nearlyFullA
   \<and> gameLoop zeroDraws nearlyFullA = None \<and> tickA zeroDraws nearlyFullA = None
   \<and> moveSnake (capture nearlyFull) 0 nearlyFull =
       Inr (nearlyFull\<lparr>score := 398, food := (0, 0), speed := 20,
                        snake := serpentinePath 400\<rparr>)"
proof -
  have v: "validDraws zeroDraws"
    by (simp add: validDraws_def zeroDraws_def unitInterval_def)
  have nh: "newHead (capture nearlyFull) nearlyFull = (19, 0)"
    by (simp add: nearlyFull_def capture_def newHead_def rawHead_def wrapCoord_def
        last_serpentinePath)
  have ef: "envFood (capture nearlyFull) = (19, 0)"
    by (simp add: nearlyFull_def capture_def)
  have f: "randomFoodPosition 0 (serpentinePath 400) 20 = (0, 0)"
    using grid_in_serpentinePath by (rule randomFoodPosition_full)
  have m: "moveSnake (capture nearlyFull) 0 nearlyFull =
       Inr (nearlyFull\<lparr>score := 398, food := (0, 0), speed := 20,
                        snake := serpentinePath 400\<rparr>)"
    using nh f ef
    by (simp add: moveSnake_def Let_def nearlyFull_def capture_def serpentinePath_nonempty
        free_cell_not_in_path serpentinePath_400)
  show ?thesis
    using food_loop_hangs_on_full_grid[where rnd = zeroDraws] v m
    by (simp add: nearlyFullA_def)
qed

end
